theory Spec2Isabelle
  imports Complex_Main "HOL-Library.Word"
begin

section \<open>Values exchanged with the services\<close>

text \<open>
  The handlers move JSON documents between the caller and three remote services.
  Numbers are exact reals here (JavaScript has IEEE doubles); strings are lists
  of 8-bit characters. A field that may be \<^verbatim>\<open>null\<close> or \<^verbatim>\<open>undefined\<close> is an
  \<open>option\<close>; the two are not told apart, and an absent field is written as
  \<open>JNull\<close> when a document is sent.
\<close>

datatype json =
    JNull
  | JBool bool
  | JNum real
  | JStr string
  | JArr "json list"
  | JObj "(string \<times> json) list"

text \<open>JavaScript's truthiness, as the \<^verbatim>\<open>||\<close> and \<^verbatim>\<open>!\<close> operators of the source use it.\<close>

fun truthy :: "json \<Rightarrow> bool" where
  "truthy JNull = False"
| "truthy (JBool b) = b"
| "truthy (JNum n) = (n \<noteq> 0)"
| "truthy (JStr s) = (s \<noteq> [])"
| "truthy (JArr xs) = True"
| "truthy (JObj kvs) = True"

text \<open>
  \<^verbatim>\<open>x || d\<close> on a string, a number and a document that may be absent;
  \<open>str_else\<close> is the case of a literal default.
\<close>

definition str_or :: "string option \<Rightarrow> string option \<Rightarrow> string option" where
  "str_or x d = (case x of None \<Rightarrow> d | Some s \<Rightarrow> if s = [] then d else Some s)"

definition str_else :: "string option \<Rightarrow> string \<Rightarrow> string" where
  "str_else x d = (case x of None \<Rightarrow> d | Some s \<Rightarrow> if s = [] then d else s)"

definition num_or :: "real option \<Rightarrow> real \<Rightarrow> real" where
  "num_or x d = (case x of None \<Rightarrow> d | Some n \<Rightarrow> if n = 0 then d else n)"

definition json_or :: "json option \<Rightarrow> json \<Rightarrow> json" where
  "json_or x d = (case x of None \<Rightarrow> d | Some v \<Rightarrow> if truthy v then v else d)"

definition opt_str :: "string option \<Rightarrow> json" where
  "opt_str x = (case x of None \<Rightarrow> JNull | Some s \<Rightarrow> JStr s)"

definition opt_num :: "real option \<Rightarrow> json" where
  "opt_num x = (case x of None \<Rightarrow> JNull | Some n \<Rightarrow> JNum n)"

text \<open>Reading a field of a JSON object; the first binding of the key counts.\<close>

fun field :: "string \<Rightarrow> json \<Rightarrow> json option" where
  "field k (JObj kvs) = map_of kvs k"
| "field k v = None"

text \<open>A thrown \<^verbatim>\<open>Error\<close>: its message and, for an HTTP failure, the response data.\<close>

datatype exn = Exn (message: string) (response_data: "json option")

section \<open>Words per minute\<close>

text \<open>
  The characters that the regular expression class \<^verbatim>\<open>\s\<close> matches among the
  first 256 code points: tab, line feed, vertical tab, form feed, carriage return,
  space and the no-break space.
\<close>

definition is_space :: "char \<Rightarrow> bool" where
  "is_space c = (of_char c \<in> {9, 10, 11, 12, 13, 32, 160 :: nat})"

text \<open>
  \<^verbatim>\<open>text.split(/\s+/)\<close>: every maximal run of white space is one separator, and
  the pieces between separators are returned, the empty piece before a leading run
  and after a trailing run included. The empty string gives one empty piece.
\<close>

function split_go :: "string \<Rightarrow> string \<Rightarrow> string list" where
  "split_go cur [] = [rev cur]"
| "split_go cur (c # cs) =
     (if is_space c then rev cur # split_go [] (dropWhile is_space cs)
      else split_go (c # cur) cs)"
  by pat_completeness auto
termination
  by (relation "measure (\<lambda>(cur, s). length s)")
     (auto simp: le_imp_less_Suc length_dropWhile_le)

definition split_ws :: "string \<Rightarrow> string list" where
  "split_ws s = split_go [] s"

text \<open>\<^verbatim>\<open>Math.round\<close>: the nearest integer, a half rounded up.\<close>

definition math_round :: "real \<Rightarrow> int" where
  "math_round x = \<lfloor>x + 1 / 2\<rfloor>"

text \<open>
  \<^verbatim>\<open>calculateWPM(text, audioDuration)\<close>, the same in the three files that have it.
  A missing duration and a zero duration give 0 before the text is looked at;
  otherwise \<^verbatim>\<open>text.split\<close> throws a \<^verbatim>\<open>TypeError\<close> when the text is absent.
  The division and the rounding are exact here; the code computes them on doubles,
  which can differ where the exact quotient is half an integer.
\<close>

definition calculateWPM :: "string option \<Rightarrow> real option \<Rightarrow> exn + int" where
  "calculateWPM text audioDuration =
     (case audioDuration of
        None \<Rightarrow> Inr 0
      | Some d \<Rightarrow>
          if d = 0 then Inr 0
          else (case text of
                  None \<Rightarrow> Inl (Exn ''Cannot read properties of undefined (reading 'split')'' None)
                | Some t \<Rightarrow>
                    let words = length (split_ws t);
                        minutes = d / 60
                    in Inr (math_round (of_nat words / minutes))))"

text \<open>
  The metric as the specification words it: the word count is the number of
  non-empty pieces, and the metric is 0 when the duration is zero or absent.
\<close>

definition wordCount_spec :: "string \<Rightarrow> nat" where
  "wordCount_spec t = length (filter (\<lambda>w. w \<noteq> []) (split_ws t))"

definition wordsPerMinute_spec :: "string \<Rightarrow> real option \<Rightarrow> int" where
  "wordsPerMinute_spec t duration =
     (case duration of
        None \<Rightarrow> 0
      | Some d \<Rightarrow> if d = 0 then 0 else math_round (of_nat (wordCount_spec t) / (d / 60)))"

section \<open>The transcription service\<close>

text \<open>
  The document that the job-status endpoint returns. \<open>transcript\<close> is a field
  that only \<^verbatim>\<open>api/audio-analysis.js\<close> reads, as the alternative to \<open>result_text\<close> (the field \<^verbatim>\<open>text\<close>).
\<close>

record transcript_result =
  status :: "string option"
  result_text :: "string option"
  transcript :: "string option"
  error :: "string option"
  confidence :: "real option"
  audio_duration :: "real option"
  sentiment_analysis_results :: "json option"

type_synonym buffer = "8 word list"

text \<open>
  The process environment and the remote services of one request. A credential is
  configured when the variable is set to a non-empty string. Each service maps the
  request it receives to what the HTTP call does: it throws (\<open>Inl\<close>) or returns
  the data the handler reads (\<open>Inr\<close>). The status endpoint is asked repeatedly, so
  it also takes the number of status requests already made for the job.
\<close>

record env =
  ASSEMBLYAI_API_KEY :: "string option"
  HUGGING_FACE_TOKEN :: "string option"
  PERPLEXITY_API_KEY :: "string option"
  IBM_WATSON_API_KEY :: "string option"
  IBM_WATSON_URL :: "string option"
  upload_srv :: "buffer \<Rightarrow> exn + string option"
  submit_srv :: "string option \<Rightarrow> exn + string option"
  status_srv :: "string option \<Rightarrow> nat \<Rightarrow> exn + transcript_result"
  hf_audio_srv :: "buffer \<Rightarrow> exn + json"
  hf_text_srv :: "string option \<Rightarrow> exn + json"
  pplx_srv :: "transcript_result \<Rightarrow> json \<Rightarrow> exn + json"
  watson_srv :: "string option \<Rightarrow> exn + json"

definition configured :: "string option \<Rightarrow> bool" where
  "configured k = (case k of None \<Rightarrow> False | Some s \<Rightarrow> s \<noteq> [])"

text \<open>
  What a run does to the outside world, in order: an HTTP request is issued
  (\<open>Call\<close>), the awaited request is settled, by a response or by a failure
  (\<open>Done\<close>), and the handler sleeps for a number of milliseconds.
\<close>

datatype service = Upload | Submit | Poll | HuggingFace | Perplexity | Watson

datatype event = Call service | Done service | Sleep nat

definition maxAttempts :: nat where
  "maxAttempts = 30"

definition terminal :: "transcript_result \<Rightarrow> bool" where
  "terminal r = (status r = Some ''completed'' \<or> status r = Some ''error'')"

text \<open>
  The \<^verbatim>\<open>while (attempts < maxAttempts)\<close> loop, written the same in all four
  handlers. The state of the loop is \<open>attempts\<close> and \<open>result\<close>; a status
  request that throws leaves the loop with the exception.
\<close>

function poll_loop ::
  "env \<Rightarrow> string option \<Rightarrow> nat \<Rightarrow> transcript_result option \<Rightarrow>
   event list \<times> (exn + nat \<times> transcript_result option)" where
  "poll_loop e transcriptId attempts result =
     (if attempts < maxAttempts then
        (case status_srv e transcriptId attempts of
           Inl x \<Rightarrow> ([Sleep 3000, Call Poll, Done Poll], Inl x)
         | Inr r \<Rightarrow>
             if status r = Some ''completed'' \<or> status r = Some ''error''
             then ([Sleep 3000, Call Poll, Done Poll], Inr (attempts, Some r))
             else (case poll_loop e transcriptId (attempts + 1) (Some r) of
                     (evs, out) \<Rightarrow> ([Sleep 3000, Call Poll, Done Poll] @ evs, out)))
      else ([], Inr (attempts, result)))"
  by pat_completeness auto
termination
  by (relation "measure (\<lambda>(e, t, attempts, r). maxAttempts - attempts)") auto

declare poll_loop.simps [simp del]

text \<open>
  The two checks after the loop, as \<^verbatim>\<open>processWithAssemblyAI\<close> makes them:
  an \<^verbatim>\<open>error\<close> status throws the upstream message, an exhausted budget throws
  the timeout.
\<close>

definition timeout_message :: string where
  "timeout_message = ''Processing timeout - audio too long or server busy''"

definition after_loop :: "nat \<times> transcript_result option \<Rightarrow> exn + transcript_result" where
  "after_loop st =
     (case st of (attempts, result) \<Rightarrow>
        (case result of
           None \<Rightarrow> Inl (Exn ''Cannot read properties of undefined (reading 'status')'' None)
         | Some r \<Rightarrow>
             if status r = Some ''error''
             then Inl (Exn (str_else (error r) ''Audio processing failed'') None)
             else if attempts \<ge> maxAttempts then Inl (Exn timeout_message None)
             else Inr r))"

text \<open>
  \<^verbatim>\<open>processWithAssemblyAI(audioBuffer)\<close>: upload, submit, poll. Its own
  \<^verbatim>\<open>catch\<close> logs and rethrows, so every failure leaves as it came.
\<close>

definition processWithAssemblyAI :: "env \<Rightarrow> buffer \<Rightarrow> event list \<times> (exn + transcript_result)" where
  "processWithAssemblyAI e audioBuffer =
     (case upload_srv e audioBuffer of
        Inl x \<Rightarrow> ([Call Upload, Done Upload], Inl x)
      | Inr audioUrl \<Rightarrow>
          (case submit_srv e audioUrl of
             Inl x \<Rightarrow> ([Call Upload, Done Upload, Call Submit, Done Submit], Inl x)
           | Inr transcriptId \<Rightarrow>
               (case poll_loop e transcriptId 0 None of
                  (evs, out) \<Rightarrow>
                    ([Call Upload, Done Upload, Call Submit, Done Submit] @ evs,
                     (case out of Inl x \<Rightarrow> Inl x | Inr st \<Rightarrow> after_loop st)))))"

section \<open>Responses\<close>

datatype response = Response (http_status: nat) (body: json)

definition error_body :: "string \<Rightarrow> json" where
  "error_body msg = JObj [(''success'', JBool False), (''error'', JStr msg)]"

text \<open>The placeholder \<^verbatim>\<open>{ error: e.message }\<close> that takes a failed provider's slot.\<close>

definition error_slot :: "exn \<Rightarrow> json" where
  "error_slot x = JObj [(''error'', JStr (message x))]"

text \<open>
  The outer \<^verbatim>\<open>catch\<close> of the Perplexity and of the Watson handler (the same
  text in both files): status 500, the message of the error or a default, and the
  data of the failed HTTP response when there is one.
\<close>

definition catch_500 :: "exn \<Rightarrow> response" where
  "catch_500 x =
     Response 500 (JObj [(''success'', JBool False),
                         (''error'', JStr (str_else (Some (message x)) ''Internal server error'')),
                         (''details'', json_or (response_data x) JNull)])"

definition missing_input :: response where
  "missing_input = Response 400 (error_body ''No audio file provided'')"

section \<open>The handler with simulated fallbacks (api/audio-analysis.js)\<close>

definition simulated_text :: string where
  "simulated_text = ''I'm telling you, I really didn't know about the meeting. It must have been a communication error somewhere in the system. I would never intentionally miss something that important.''"

definition simulateAssemblyAIResults :: transcript_result where
  "simulateAssemblyAIResults =
     \<lparr> status = None,
       result_text = Some simulated_text,
       transcript = None,
       error = None,
       confidence = Some (85 / 100),
       audio_duration = Some 30,
       sentiment_analysis_results = Some (JObj [(''text'', JStr ''neutral'')]) \<rparr>"

definition emotion :: "string \<Rightarrow> real \<Rightarrow> json" where
  "emotion l s = JObj [(''label'', JStr l), (''score'', JNum s)]"

definition simulateHuggingFaceResults :: json where
  "simulateHuggingFaceResults =
     JArr [emotion ''neutral'' (45 / 100), emotion ''fear'' (25 / 100),
           emotion ''sadness'' (15 / 100), emotion ''anger'' (8 / 100),
           emotion ''surprise'' (5 / 100), emotion ''disgust'' (2 / 100)]"

definition simulateTruthAnalysisReport :: "transcript_result \<Rightarrow> json \<Rightarrow> json" where
  "simulateTruthAnalysisReport assemblyResult huggingResult =
     JObj [(''truthScore'', JNum 63),
           (''confidence'', JNum 78),
           (''summary'', JStr ''The speaker shows moderate truthfulness with some indicators of potential deception. There are inconsistencies between vocal patterns and content.''),
           (''detailedAnalysis'',
            JArr [JObj [(''title'', JStr ''Emotional Analysis''),
                        (''content'', JStr ''The speaker displays primarily neutral affect with underlying fear and sadness. This emotional profile may indicate anxiety about the topic or potential consequences.'')],
                  JObj [(''title'', JStr ''Communication Patterns''),
                        (''content'', JStr ''Speech shows moderate pace with occasional hesitations. The tone is somewhat tentative, suggesting uncertainty or lack of confidence in the statements being made.'')]])]"

text \<open>
  \<^verbatim>\<open>generateSimulatedResponse(audioFile)\<close>. The argument is not read. The
  result is \<open>Inl\<close> if \<^verbatim>\<open>calculateWPM\<close> throws.
\<close>

definition generateSimulatedResponse :: "buffer option \<Rightarrow> exn + json" where
  "generateSimulatedResponse audioFile =
     (let assemblyResult = simulateAssemblyAIResults;
          huggingResult = simulateHuggingFaceResults;
          perplexityResult = simulateTruthAnalysisReport assemblyResult huggingResult
      in (case calculateWPM (result_text assemblyResult) (audio_duration assemblyResult) of
            Inl x \<Rightarrow> Inl x
          | Inr wpm \<Rightarrow>
              Inr (JObj [(''success'', JBool True),
                         (''transcript'', opt_str (result_text assemblyResult)),
                         (''audioMetrics'',
                          JObj [(''wordsPerMinute'', JNum (of_int wpm)),
                                (''confidence'', opt_num (confidence assemblyResult)),
                                (''audioDuration'', opt_num (audio_duration assemblyResult)),
                                (''sentiment'',
                                 (case sentiment_analysis_results assemblyResult of
                                    None \<Rightarrow> JNull | Some v \<Rightarrow> v))]),
                         (''emotions'', huggingResult),
                         (''detailedAnalysis'', perplexityResult)])))"

text \<open>
  \<^verbatim>\<open>res.json(generateSimulatedResponse(...))\<close>; when the generator throws
  inside the outer \<^verbatim>\<open>catch\<close>, the handler's promise rejects and no response is
  sent (\<open>Inl\<close>).
\<close>

definition respond_simulated :: "buffer option \<Rightarrow> exn + response" where
  "respond_simulated audioFile =
     (case generateSimulatedResponse audioFile of
        Inl x \<Rightarrow> Inl x
      | Inr b \<Rightarrow> Inr (Response 200 b))"

text \<open>In this file \<^verbatim>\<open>processWithHuggingFace\<close> has no check of the token.\<close>

definition processWithHuggingFace_fallback :: "env \<Rightarrow> buffer \<Rightarrow> event list \<times> (exn + json)" where
  "processWithHuggingFace_fallback e audioBuffer =
     ([Call HuggingFace, Done HuggingFace], hf_audio_srv e audioBuffer)"

text \<open>
  \<^verbatim>\<open>processWithPerplexity\<close> builds the prompt first, which computes the
  words-per-minute metric and throws when that throws; then it sends the request.
\<close>

definition processWithPerplexity_fallback ::
  "env \<Rightarrow> transcript_result \<Rightarrow> json \<Rightarrow> event list \<times> (exn + json)" where
  "processWithPerplexity_fallback e assemblyResult huggingResult =
     (case calculateWPM (str_or (result_text assemblyResult) (transcript assemblyResult))
                        (Some (num_or (audio_duration assemblyResult) 30)) of
        Inl x \<Rightarrow> ([], Inl x)
      | Inr wpm \<Rightarrow> ([Call Perplexity, Done Perplexity], pplx_srv e assemblyResult huggingResult))"

definition assemble_fallback :: "transcript_result \<Rightarrow> json \<Rightarrow> json \<Rightarrow> exn + json" where
  "assemble_fallback assemblyResult huggingResult perplexityResult =
     (case calculateWPM (str_or (result_text assemblyResult) (transcript assemblyResult))
                        (Some (num_or (audio_duration assemblyResult) 30)) of
        Inl x \<Rightarrow> Inl x
      | Inr wpm \<Rightarrow>
          Inr (JObj [(''success'', JBool True),
                     (''transcript'',
                      opt_str (str_or (result_text assemblyResult) (transcript assemblyResult))),
                     (''audioMetrics'',
                      JObj [(''wordsPerMinute'', JNum (of_int wpm)),
                            (''confidence'', JNum (num_or (confidence assemblyResult) (85 / 100))),
                            (''audioDuration'', JNum (num_or (audio_duration assemblyResult) 30)),
                            (''sentiment'',
                             json_or (sentiment_analysis_results assemblyResult) JNull)]),
                     (''emotions'', huggingResult),
                     (''detailedAnalysis'', perplexityResult)]))"

text \<open>
  The handler of \<^verbatim>\<open>POST /api/analyze-audio\<close>. Each of the three inner
  \<^verbatim>\<open>try\<close> blocks replaces a failure by the simulated value; the outer
  \<^verbatim>\<open>catch\<close> answers with the whole simulated response.
\<close>

definition analyzeAudio_fallback :: "env \<Rightarrow> buffer option \<Rightarrow> event list \<times> (exn + response)" where
  "analyzeAudio_fallback e file =
     (case file of
        None \<Rightarrow> ([], Inr missing_input)
      | Some audioBuffer \<Rightarrow>
          if \<not> configured (ASSEMBLYAI_API_KEY e) then ([], respond_simulated file)
          else
            (case processWithAssemblyAI e audioBuffer of (ev1, a) \<Rightarrow>
               let assemblyResult = (case a of Inl x \<Rightarrow> simulateAssemblyAIResults | Inr r \<Rightarrow> r) in
               (case (if configured (HUGGING_FACE_TOKEN e)
                      then processWithHuggingFace_fallback e audioBuffer
                      else ([], Inl (Exn ''Hugging Face not configured'' None))) of (ev2, h) \<Rightarrow>
                  let huggingResult = (case h of Inl x \<Rightarrow> simulateHuggingFaceResults | Inr v \<Rightarrow> v) in
                  (case (if configured (PERPLEXITY_API_KEY e)
                         then processWithPerplexity_fallback e assemblyResult huggingResult
                         else ([], Inl (Exn ''Perplexity AI not configured'' None))) of (ev3, p) \<Rightarrow>
                     let perplexityResult =
                           (case p of
                              Inl x \<Rightarrow> simulateTruthAnalysisReport assemblyResult huggingResult
                            | Inr v \<Rightarrow> v) in
                     (ev1 @ ev2 @ ev3,
                      (case assemble_fallback assemblyResult huggingResult perplexityResult of
                         Inl x \<Rightarrow> respond_simulated file
                       | Inr b \<Rightarrow> Inr (Response 200 b)))))))"

section \<open>The handler with the generative analysis (second file of unnamed/part_000)\<close>

text \<open>Here \<^verbatim>\<open>processWithHuggingFace\<close> throws before any request when no token is set.\<close>

definition processWithHuggingFace_perplexity :: "env \<Rightarrow> buffer \<Rightarrow> event list \<times> (exn + json)" where
  "processWithHuggingFace_perplexity e audioBuffer =
     (if \<not> configured (HUGGING_FACE_TOKEN e)
      then ([], Inl (Exn ''Hugging Face not configured'' None))
      else ([Call HuggingFace, Done HuggingFace], hf_audio_srv e audioBuffer))"

definition processWithPerplexity_perplexity ::
  "env \<Rightarrow> transcript_result \<Rightarrow> json \<Rightarrow> event list \<times> (exn + json)" where
  "processWithPerplexity_perplexity e assemblyResult huggingResult =
     (if \<not> configured (PERPLEXITY_API_KEY e)
      then ([], Inl (Exn ''Perplexity AI not configured'' None))
      else (case calculateWPM (result_text assemblyResult) (audio_duration assemblyResult) of
              Inl x \<Rightarrow> ([], Inl x)
            | Inr wpm \<Rightarrow>
                ([Call Perplexity, Done Perplexity], pplx_srv e assemblyResult huggingResult)))"

text \<open>
  \<^verbatim>\<open>Promise.all([processWithAssemblyAI(..), processWithHuggingFace(..).catch(..)])\<close>.
  Both calls are started in this order and each runs up to its first request, so the
  upload request is issued first and the emotion request second. From then on the
  events of the transcription come in their order, and the emotion request is
  settled at a moment the network chooses: after \<open>sched\<close> further events of the
  transcription, or after all of them. When the transcription throws,
  \<^verbatim>\<open>Promise.all\<close> rejects at once (\<open>wait = False\<close>) and an emotion request
  that is still open is not waited for.
\<close>

definition interleave :: "nat \<Rightarrow> bool \<Rightarrow> event list \<Rightarrow> event list \<Rightarrow> event list" where
  "interleave sched wait tev hev =
     (case hev of
        [] \<Rightarrow> tev
      | c # ds \<Rightarrow>
          (case tev of
             [] \<Rightarrow> hev
           | u # rest \<Rightarrow>
               u # c # (if wait \<or> sched < length rest
                        then take sched rest @ ds @ drop sched rest
                        else rest)))"

text \<open>
  The document of the answer. A field of the result that is \<^verbatim>\<open>undefined\<close> is
  written as \<open>JNull\<close> here, where \<^verbatim>\<open>res.json\<close> leaves the key out; for a
  result that carries its text, confidence and duration the two agree.
\<close>

definition assemble_perplexity :: "transcript_result \<Rightarrow> json \<Rightarrow> json \<Rightarrow> exn + json" where
  "assemble_perplexity assemblyResult huggingResult perplexityResult =
     (case calculateWPM (result_text assemblyResult) (audio_duration assemblyResult) of
        Inl x \<Rightarrow> Inl x
      | Inr wpm \<Rightarrow>
          Inr (JObj [(''success'', JBool True),
                     (''transcript'', opt_str (result_text assemblyResult)),
                     (''audioMetrics'',
                      JObj [(''wordsPerMinute'', JNum (of_int wpm)),
                            (''confidence'', opt_num (confidence assemblyResult)),
                            (''audioDuration'', opt_num (audio_duration assemblyResult)),
                            (''sentiment'',
                             json_or (sentiment_analysis_results assemblyResult) JNull)]),
                     (''emotions'', huggingResult),
                     (''detailedAnalysis'', perplexityResult)]))"

definition analyzeAudio_perplexity :: "env \<Rightarrow> nat \<Rightarrow> buffer option \<Rightarrow> event list \<times> response" where
  "analyzeAudio_perplexity e sched file =
     (case file of
        None \<Rightarrow> ([], missing_input)
      | Some audioBuffer \<Rightarrow>
          if \<not> configured (ASSEMBLYAI_API_KEY e)
          then ([], Response 500 (error_body ''AssemblyAI API key not configured''))
          else
            (case processWithAssemblyAI e audioBuffer of (tev, a) \<Rightarrow>
             (case processWithHuggingFace_perplexity e audioBuffer of (hev, h) \<Rightarrow>
                let huggingResult = (case h of Inl x \<Rightarrow> error_slot x | Inr v \<Rightarrow> v) in
                (case a of
                   Inl x \<Rightarrow> (interleave sched False tev hev, catch_500 x)
                 | Inr assemblyResult \<Rightarrow>
                     (case (if configured (PERPLEXITY_API_KEY e)
                            then (case processWithPerplexity_perplexity e assemblyResult huggingResult of
                                    (ev, p) \<Rightarrow> (ev, (case p of Inl x \<Rightarrow> error_slot x | Inr v \<Rightarrow> v)))
                            else ([], JNull)) of (pev, perplexityResult) \<Rightarrow>
                        (interleave sched True tev hev @ pev,
                         (case assemble_perplexity assemblyResult huggingResult perplexityResult of
                            Inl x \<Rightarrow> catch_500 x
                          | Inr b \<Rightarrow> Response 200 b)))))))"

section \<open>The handler with the tone analysis (unnamed/part_001)\<close>

text \<open>
  In this file the two providers take the transcript text, and without credentials
  they return an error object instead of throwing.
\<close>

definition processWithHuggingFace_watson :: "env \<Rightarrow> string option \<Rightarrow> event list \<times> (exn + json)" where
  "processWithHuggingFace_watson e txt_arg =
     (if \<not> configured (HUGGING_FACE_TOKEN e)
      then ([], Inr (JObj [(''error'', JStr ''Hugging Face not configured'')]))
      else ([Call HuggingFace, Done HuggingFace], hf_text_srv e txt_arg))"

definition processWithIBMWatson :: "env \<Rightarrow> string option \<Rightarrow> event list \<times> (exn + json)" where
  "processWithIBMWatson e txt_arg =
     (if \<not> configured (IBM_WATSON_API_KEY e) \<or> \<not> configured (IBM_WATSON_URL e)
      then ([], Inr (JObj [(''error'', JStr ''IBM Watson not configured'')]))
      else ([Call Watson, Done Watson], watson_srv e txt_arg))"

definition assemble_watson :: "transcript_result \<Rightarrow> json \<Rightarrow> json \<Rightarrow> exn + json" where
  "assemble_watson assemblyResult huggingResult ibmResult =
     (case calculateWPM (result_text assemblyResult) (audio_duration assemblyResult) of
        Inl x \<Rightarrow> Inl x
      | Inr wpm \<Rightarrow>
          Inr (JObj [(''success'', JBool True),
                     (''transcript'', opt_str (result_text assemblyResult)),
                     (''audioMetrics'',
                      JObj [(''wordsPerMinute'', JNum (of_int wpm)),
                            (''confidence'', opt_num (confidence assemblyResult)),
                            (''audioDuration'', opt_num (audio_duration assemblyResult))]),
                     (''emotions'', huggingResult),
                     (''tones'', ibmResult),
                     (''sentiment'', json_or (sentiment_analysis_results assemblyResult) JNull)]))"

definition analyzeAudio_watson :: "env \<Rightarrow> buffer option \<Rightarrow> event list \<times> response" where
  "analyzeAudio_watson e file =
     (case file of
        None \<Rightarrow> ([], missing_input)
      | Some audioBuffer \<Rightarrow>
          if \<not> configured (ASSEMBLYAI_API_KEY e)
          then ([], Response 500 (error_body ''AssemblyAI API key not configured''))
          else
            (case processWithAssemblyAI e audioBuffer of (ev1, a) \<Rightarrow>
             (case a of
                Inl x \<Rightarrow> (ev1, catch_500 x)
              | Inr assemblyResult \<Rightarrow>
                  (case (if configured (HUGGING_FACE_TOKEN e)
                         then (case processWithHuggingFace_watson e (result_text assemblyResult) of
                                 (ev, h) \<Rightarrow> (ev, (case h of Inl x \<Rightarrow> error_slot x | Inr v \<Rightarrow> v)))
                         else ([], JNull)) of (ev2, huggingResult) \<Rightarrow>
                  (case (if configured (IBM_WATSON_API_KEY e) \<and> configured (IBM_WATSON_URL e)
                         then (case processWithIBMWatson e (result_text assemblyResult) of
                                 (ev, w) \<Rightarrow> (ev, (case w of Inl x \<Rightarrow> error_slot x | Inr v \<Rightarrow> v)))
                         else ([], JNull)) of (ev3, ibmResult) \<Rightarrow>
                     (ev1 @ ev2 @ ev3,
                      (case assemble_watson assemblyResult huggingResult ibmResult of
                         Inl x \<Rightarrow> catch_500 x
                       | Inr b \<Rightarrow> Response 200 b)))))))"

section \<open>The handler with transcription only (first file of unnamed/part_000)\<close>

text \<open>
  This handler has the upload, the submission and the poll loop in its own body,
  and answers the failed job and the exhausted budget itself. Its \<^verbatim>\<open>catch\<close>
  sends the message of the error without further details.
\<close>

definition catch_sentiment :: "exn \<Rightarrow> response" where
  "catch_sentiment x =
     Response 500 (error_body (str_else (Some (message x)) ''Internal server error''))"

definition after_loop_sentiment :: "nat \<times> transcript_result option \<Rightarrow> response" where
  "after_loop_sentiment st =
     (case st of (attempts, result) \<Rightarrow>
        (case result of
           None \<Rightarrow> catch_sentiment (Exn ''Cannot read properties of undefined (reading 'status')'' None)
         | Some r \<Rightarrow>
             if status r = Some ''error''
             then Response 500 (error_body (''Audio processing failed: '' @ str_else (error r) ''Unknown error''))
             else if attempts \<ge> maxAttempts then Response 500 (error_body timeout_message)
             else Response 200 (JObj [(''success'', JBool True),
                                      (''text'', opt_str (result_text r)),
                                      (''sentiments'', json_or (sentiment_analysis_results r) (JArr []))])))"

definition analyzeAudio_sentiment :: "env \<Rightarrow> buffer option \<Rightarrow> event list \<times> response" where
  "analyzeAudio_sentiment e file =
     (case file of
        None \<Rightarrow> ([], missing_input)
      | Some audioBuffer \<Rightarrow>
          if \<not> configured (ASSEMBLYAI_API_KEY e)
          then ([], Response 500 (error_body ''Server configuration error''))
          else
            (case upload_srv e audioBuffer of
               Inl x \<Rightarrow> ([Call Upload, Done Upload], catch_sentiment x)
             | Inr audioUrl \<Rightarrow>
                 (case submit_srv e audioUrl of
                    Inl x \<Rightarrow> ([Call Upload, Done Upload, Call Submit, Done Submit], catch_sentiment x)
                  | Inr transcriptId \<Rightarrow>
                      (case poll_loop e transcriptId 0 None of
                         (evs, out) \<Rightarrow>
                           ([Call Upload, Done Upload, Call Submit, Done Submit] @ evs,
                            (case out of
                               Inl x \<Rightarrow> catch_sentiment x
                             | Inr st \<Rightarrow> after_loop_sentiment st))))))"

section \<open>Reading a response, and stub services\<close>

definition response_field :: "string \<Rightarrow> exn + response \<Rightarrow> json option" where
  "response_field k out = (case out of Inl x \<Rightarrow> None | Inr r \<Rightarrow> field k (body r))"

text \<open>
  Deterministic stub services for running the handlers on a concrete request: every
  credential is set, the upload and the submission succeed, and the job is reported
  as \<^verbatim>\<open>processing\<close> for the first \<open>k\<close> status requests and as completed from
  then on.
\<close>

definition pending_result :: transcript_result where
  "pending_result =
     \<lparr> status = Some ''processing'', result_text = None, transcript = None, error = None,
       confidence = None, audio_duration = None, sentiment_analysis_results = None \<rparr>"

definition completed_result :: transcript_result where
  "completed_result =
     \<lparr> status = Some ''completed'', result_text = Some ''one two three four five six'',
       transcript = None, error = None, confidence = Some (9 / 10),
       audio_duration = Some 30, sentiment_analysis_results = None \<rparr>"

definition stub_env :: "nat \<Rightarrow> env" where
  "stub_env k =
     \<lparr> ASSEMBLYAI_API_KEY = Some ''a-key'',
       HUGGING_FACE_TOKEN = Some ''h-token'',
       PERPLEXITY_API_KEY = Some ''p-key'',
       IBM_WATSON_API_KEY = Some ''w-key'',
       IBM_WATSON_URL = Some ''https://watson.test'',
       upload_srv = (\<lambda>b. Inr (Some ''https://cdn.test/upload/1'')),
       submit_srv = (\<lambda>u. Inr (Some ''job-1'')),
       status_srv = (\<lambda>i n. if n < k then Inr pending_result else Inr completed_result),
       hf_audio_srv = (\<lambda>b. Inr (JArr [emotion ''neutral'' 1])),
       hf_text_srv = (\<lambda>t. Inr (JArr [emotion ''joy'' 1])),
       pplx_srv = (\<lambda>a h. Inr (JStr ''report'')),
       watson_srv = (\<lambda>t. Inr (JStr ''tones'')) \<rparr>"

definition network_error :: exn where
  "network_error = Exn ''Network Error'' None"

definition simulated_body :: json where
  "simulated_body =
     JObj [(''success'', JBool True),
           (''transcript'', JStr simulated_text),
           (''audioMetrics'',
            JObj [(''wordsPerMinute'', JNum 58),
                  (''confidence'', JNum (85 / 100)),
                  (''audioDuration'', JNum 30),
                  (''sentiment'', JObj [(''text'', JStr ''neutral'')])]),
           (''emotions'', simulateHuggingFaceResults),
           (''detailedAnalysis'',
            simulateTruthAnalysisReport simulateAssemblyAIResults simulateHuggingFaceResults)]"

text \<open>The same services with no transcription key and a completed job that carries no text.\<close>

definition textless_env :: env where
  "textless_env =
     (stub_env 0)\<lparr> ASSEMBLYAI_API_KEY := None,
                    status_srv := (\<lambda>i n. Inr (completed_result\<lparr>result_text := None\<rparr>)) \<rparr>"

text \<open>
  One round of the poll loop, and the status requests that let the loop go on: the
  request number \<open>i\<close> (counted from 0) of a job is pending when it returns a
  document whose status is neither \<^verbatim>\<open>completed\<close> nor \<^verbatim>\<open>error\<close>.
\<close>

definition poll_cycle :: "event list" where
  "poll_cycle = [Sleep 3000, Call Poll, Done Poll]"

definition pending_at :: "env \<Rightarrow> string option \<Rightarrow> nat \<Rightarrow> bool" where
  "pending_at e tid i = (case status_srv e tid i of Inl x \<Rightarrow> False | Inr r \<Rightarrow> \<not> terminal r)"

text \<open>
  The values that the handlers hold after each provider call, with the events of the
  call: the variables \<^verbatim>\<open>assemblyResult\<close>, \<^verbatim>\<open>huggingResult\<close> and
  \<^verbatim>\<open>perplexityResult\<close> of \<^verbatim>\<open>api/audio-analysis.js\<close>, then
  \<^verbatim>\<open>huggingResult\<close> and \<^verbatim>\<open>perplexityResult\<close> of the handler with the
  generative analysis, then \<^verbatim>\<open>huggingResult\<close> and \<^verbatim>\<open>ibmResult\<close> of the
  handler with the tone analysis. The lemmas \<open>analyzeAudio_fallback_run\<close>,
  \<open>analyzeAudio_perplexity_ok\<close> and \<open>analyzeAudio_watson_ok\<close> show that the
  handlers compute their answers from these values.
\<close>

definition fallback_assemblyResult :: "env \<Rightarrow> buffer \<Rightarrow> transcript_result" where
  "fallback_assemblyResult e b =
     (case snd (processWithAssemblyAI e b) of Inl x \<Rightarrow> simulateAssemblyAIResults | Inr r \<Rightarrow> r)"

definition fallback_hugging :: "env \<Rightarrow> buffer \<Rightarrow> event list \<times> json" where
  "fallback_hugging e b =
     (if configured (HUGGING_FACE_TOKEN e)
      then ([Call HuggingFace, Done HuggingFace],
            (case hf_audio_srv e b of Inl x \<Rightarrow> simulateHuggingFaceResults | Inr v \<Rightarrow> v))
      else ([], simulateHuggingFaceResults))"

definition fallback_perplexity :: "env \<Rightarrow> transcript_result \<Rightarrow> json \<Rightarrow> event list \<times> json" where
  "fallback_perplexity e a h =
     (if configured (PERPLEXITY_API_KEY e)
      then (fst (processWithPerplexity_fallback e a h),
            (case snd (processWithPerplexity_fallback e a h) of
               Inl x \<Rightarrow> simulateTruthAnalysisReport a h | Inr v \<Rightarrow> v))
      else ([], simulateTruthAnalysisReport a h))"

definition perplexity_hugging :: "env \<Rightarrow> buffer \<Rightarrow> event list \<times> json" where
  "perplexity_hugging e b =
     (if configured (HUGGING_FACE_TOKEN e)
      then ([Call HuggingFace, Done HuggingFace],
            (case hf_audio_srv e b of Inl x \<Rightarrow> error_slot x | Inr v \<Rightarrow> v))
      else ([], JObj [(''error'', JStr ''Hugging Face not configured'')]))"

definition perplexity_report :: "env \<Rightarrow> transcript_result \<Rightarrow> json \<Rightarrow> event list \<times> json" where
  "perplexity_report e a h =
     (if configured (PERPLEXITY_API_KEY e)
      then (fst (processWithPerplexity_perplexity e a h),
            (case snd (processWithPerplexity_perplexity e a h) of
               Inl x \<Rightarrow> error_slot x | Inr v \<Rightarrow> v))
      else ([], JNull))"

definition watson_hugging :: "env \<Rightarrow> transcript_result \<Rightarrow> event list \<times> json" where
  "watson_hugging e a =
     (if configured (HUGGING_FACE_TOKEN e)
      then ([Call HuggingFace, Done HuggingFace],
            (case hf_text_srv e (result_text a) of Inl x \<Rightarrow> error_slot x | Inr v \<Rightarrow> v))
      else ([], JNull))"

definition watson_tones :: "env \<Rightarrow> transcript_result \<Rightarrow> event list \<times> json" where
  "watson_tones e a =
     (if configured (IBM_WATSON_API_KEY e) \<and> configured (IBM_WATSON_URL e)
      then ([Call Watson, Done Watson],
            (case watson_srv e (result_text a) of Inl x \<Rightarrow> error_slot x | Inr v \<Rightarrow> v))
      else ([], JNull))"

text \<open>The events that belong to the transcription: upload, submission, polls and sleeps.\<close>

fun of_transcription :: "event \<Rightarrow> bool" where
  "of_transcription (Call s) = (s = Upload \<or> s = Submit \<or> s = Poll)"
| "of_transcription (Done s) = (s = Upload \<or> s = Submit \<or> s = Poll)"
| "of_transcription (Sleep ms) = True"

text \<open>
  The stub services with failing emotion and tone providers and another report;
  the transcription service is the same.
\<close>

definition flaky_env :: env where
  "flaky_env =
     (stub_env 1)\<lparr> hf_audio_srv := (\<lambda>b. Inl network_error),
                    hf_text_srv := (\<lambda>t. Inl network_error),
                    pplx_srv := (\<lambda>a h. Inr (JStr ''another report'')),
                    watson_srv := (\<lambda>t. Inl network_error) \<rparr>"

text \<open>The stub services with an upload endpoint that fails with a network error.\<close>

definition net_down_env :: env where
  "net_down_env = (stub_env 1)\<lparr> upload_srv := (\<lambda>b. Inl network_error) \<rparr>"

text \<open>The stub services without the credentials of the two enrichment providers.\<close>

definition unconfigured_env :: env where
  "unconfigured_env =
     (stub_env 1)\<lparr> HUGGING_FACE_TOKEN := None, PERPLEXITY_API_KEY := None \<rparr>"

text \<open>
  The two shapes of a response: an error object, which has \<^verbatim>\<open>success: false\<close>,
  a message and no transcript; and a success with status 200 whose transcript is the
  text of a transcription result.
\<close>

definition is_message :: "json option \<Rightarrow> bool" where
  "is_message v = (case v of Some (JStr m) \<Rightarrow> True | _ \<Rightarrow> False)"

definition error_shape :: "response \<Rightarrow> bool" where
  "error_shape r = (field ''success'' (body r) = Some (JBool False)
                    \<and> is_message (field ''error'' (body r))
                    \<and> field ''transcript'' (body r) = None)"

definition transcript_shape :: "transcript_result \<Rightarrow> response \<Rightarrow> bool" where
  "transcript_shape a r = (http_status r = 200
                    \<and> field ''success'' (body r) = Some (JBool True)
                    \<and> field ''transcript'' (body r) = Some (opt_str (result_text a)))"

text \<open>
  A transcription outcome carries a text when it is a failure or a result whose
  \<^verbatim>\<open>text\<close> field is present.
\<close>

definition carries_text :: "exn + transcript_result \<Rightarrow> bool" where
  "carries_text out = (case out of Inl x \<Rightarrow> True | Inr r \<Rightarrow> result_text r \<noteq> None)"

section \<open>Missing input\<close>

text \<open>
  Claim C7. A request without an audio file is answered at once, in every handler,
  with status 400 and the body \<^verbatim>\<open>{success: false, error: 'No audio file provided'}\<close>,
  and no request to any external service is made: the trace of the run is empty.
\<close>

theorem missing_input_rejected_first:
  "analyzeAudio_fallback e None = ([], Inr missing_input)
   \<and> analyzeAudio_perplexity e sched None = ([], missing_input)
   \<and> analyzeAudio_watson e None = ([], missing_input)
   \<and> analyzeAudio_sentiment e None = ([], missing_input)
   \<and> http_status missing_input = 400
   \<and> body missing_input = JObj [(''success'', JBool False), (''error'', JStr ''No audio file provided'')]"
  by (simp add: analyzeAudio_fallback_def analyzeAudio_perplexity_def analyzeAudio_watson_def
      analyzeAudio_sentiment_def missing_input_def error_body_def)

theorem missing_input_rejected_first_witness:
  "analyzeAudio_fallback (stub_env 2) None = ([], Inr missing_input)
   \<and> analyzeAudio_perplexity (stub_env 2) 0 None = ([], missing_input)
   \<and> analyzeAudio_watson (stub_env 2) None = ([], missing_input)
   \<and> analyzeAudio_sentiment (stub_env 2) None = ([], missing_input)
   \<and> http_status missing_input = 400"
  using missing_input_rejected_first [of "stub_env 2" 0] by simp

section \<open>The words-per-minute metric\<close>

lemma calculateWPM_examples:
  "calculateWPM (Some ''one two three four five six'') (Some 30) = Inr 12"
  "calculateWPM (Some ''hello'') (Some 0) = Inr 0"
  "calculateWPM (Some ''hello'') None = Inr 0"
  by (simp_all add: calculateWPM_def split_ws_def is_space_def math_round_def)

lemma calculateWPM_no_duration:
  "d = None \<or> d = Some 0 \<Longrightarrow> calculateWPM t d = Inr 0"
  by (auto simp: calculateWPM_def)

text \<open>
  Claim C4. The metric is to count the non-empty pieces of the transcript. The code
  counts every piece that \<^verbatim>\<open>split\<close> returns: for the empty transcript of a
  30 second recording it reports 2 words per minute where the specified metric is
  0, and for a transcript with a leading space and one word in a minute it reports
  2 where the specified metric is 1.
\<close>

theorem calculateWPM_counts_empty_pieces:
  "calculateWPM (Some '''') (Some 30) = Inr 2
   \<and> wordsPerMinute_spec '''' (Some 30) = 0
   \<and> calculateWPM (Some '' hello'') (Some 60) = Inr 2
   \<and> wordsPerMinute_spec '' hello'' (Some 60) = 1"
  by (simp add: calculateWPM_def wordsPerMinute_spec_def wordCount_spec_def split_ws_def
      is_space_def math_round_def)

section \<open>The simulated response\<close>

lemma simulated_wpm:
  "calculateWPM (Some simulated_text) (Some 30) = Inr 58"
  by (simp add: simulated_text_def calculateWPM_def split_ws_def is_space_def math_round_def)

lemma generateSimulatedResponse_const:
  "generateSimulatedResponse audioFile = Inr simulated_body"
  by (simp add: generateSimulatedResponse_def simulated_body_def simulateAssemblyAIResults_def
      simulated_wpm opt_str_def opt_num_def)

lemma respond_simulated_const:
  "respond_simulated audioFile = Inr (Response 200 simulated_body)"
  by (simp add: respond_simulated_def generateSimulatedResponse_const)

lemma num_or_nonzero: "d \<noteq> 0 \<Longrightarrow> num_or x d \<noteq> 0"
  by (simp add: num_or_def split: option.splits)

lemma assemble_fallback_throws:
  "str_or (result_text r) (transcript r) = None \<Longrightarrow>
   assemble_fallback r h p = Inl (Exn ''Cannot read properties of undefined (reading 'split')'' None)"
  by (simp add: assemble_fallback_def calculateWPM_def num_or_nonzero)

lemma analyzeAudio_fallback_catch:
  assumes a: "snd (processWithAssemblyAI e b) = Inr r"
    and t: "str_or (result_text r) (transcript r) = None"
  shows "snd (analyzeAudio_fallback e (Some b)) = Inr (Response 200 simulated_body)"
  using a
  by (simp add: analyzeAudio_fallback_def case_prod_beta Let_def respond_simulated_const
        assemble_fallback_throws [OF t])

text \<open>
  Claim C9. \<^verbatim>\<open>generateSimulatedResponse\<close> does not depend on its argument: it
  returns one fixed document, with \<^verbatim>\<open>success: true\<close>, the fixed transcript,
  58 words per minute, confidence 0.85, duration 30, the canned emotion list and the
  canned report. The handler answers with exactly this document when the
  transcription key is missing, and when an error is thrown outside the inner
  \<^verbatim>\<open>try\<close> blocks (which happens when the completed job carries no text).
\<close>

theorem simulated_response_constant:
  "generateSimulatedResponse audioFile = generateSimulatedResponse audioFile'
   \<and> generateSimulatedResponse audioFile = Inr simulated_body
   \<and> field ''success'' simulated_body = Some (JBool True)
   \<and> field ''transcript'' simulated_body = Some (JStr simulated_text)
   \<and> field ''audioMetrics'' simulated_body =
       Some (JObj [(''wordsPerMinute'', JNum 58), (''confidence'', JNum (85 / 100)),
                   (''audioDuration'', JNum 30),
                   (''sentiment'', JObj [(''text'', JStr ''neutral'')])])
   \<and> field ''emotions'' simulated_body = Some simulateHuggingFaceResults
   \<and> field ''detailedAnalysis'' simulated_body = Some (simulateTruthAnalysisReport a h)
   \<and> (\<not> configured (ASSEMBLYAI_API_KEY e) \<longrightarrow>
        analyzeAudio_fallback e (Some b) = ([], Inr (Response 200 simulated_body)))
   \<and> (snd (processWithAssemblyAI e b) = Inr r \<and> str_or (result_text r) (transcript r) = None \<longrightarrow>
        snd (analyzeAudio_fallback e (Some b)) = Inr (Response 200 simulated_body))"
proof -
  have f: "field ''success'' simulated_body = Some (JBool True)"
    "field ''transcript'' simulated_body = Some (JStr simulated_text)"
    "field ''audioMetrics'' simulated_body =
       Some (JObj [(''wordsPerMinute'', JNum 58), (''confidence'', JNum (85 / 100)),
                   (''audioDuration'', JNum 30),
                   (''sentiment'', JObj [(''text'', JStr ''neutral'')])])"
    "field ''emotions'' simulated_body = Some simulateHuggingFaceResults"
    by (simp_all add: simulated_body_def)
  have d: "field ''detailedAnalysis'' simulated_body = Some (simulateTruthAnalysisReport a h)"
    by (simp add: simulated_body_def simulateTruthAnalysisReport_def)
  have k: "\<not> configured (ASSEMBLYAI_API_KEY e) \<longrightarrow>
        analyzeAudio_fallback e (Some b) = ([], Inr (Response 200 simulated_body))"
    by (simp add: analyzeAudio_fallback_def respond_simulated_const)
  show ?thesis
    using f d k analyzeAudio_fallback_catch [of e b r]
    by (simp only: generateSimulatedResponse_const) blast
qed

theorem simulated_response_constant_witness:
  "\<not> configured (ASSEMBLYAI_API_KEY textless_env)
   \<and> snd (processWithAssemblyAI textless_env []) = Inr (completed_result\<lparr>result_text := None\<rparr>)
   \<and> str_or (result_text (completed_result\<lparr>result_text := None\<rparr>))
             (transcript (completed_result\<lparr>result_text := None\<rparr>)) = None
   \<and> analyzeAudio_fallback textless_env (Some []) = ([], Inr (Response 200 simulated_body))
   \<and> snd (analyzeAudio_fallback textless_env (Some [])) = Inr (Response 200 simulated_body)"
proof -
  have 1: "\<not> configured (ASSEMBLYAI_API_KEY textless_env)"
    by (simp add: textless_env_def stub_env_def configured_def)
  have 2: "snd (processWithAssemblyAI textless_env []) = Inr (completed_result\<lparr>result_text := None\<rparr>)"
    by (simp add: processWithAssemblyAI_def textless_env_def stub_env_def poll_loop.simps
        maxAttempts_def after_loop_def completed_result_def)
  have 3: "str_or (result_text (completed_result\<lparr>result_text := None\<rparr>))
             (transcript (completed_result\<lparr>result_text := None\<rparr>)) = None"
    by (simp add: str_or_def completed_result_def)
  from simulated_response_constant
         [of None None undefined undefined textless_env "[]"
             "completed_result\<lparr>result_text := None\<rparr>"] 1 2 3
  show ?thesis by simp
qed

section \<open>The poll loop\<close>

lemma poll_loop_exhausted:
  "maxAttempts \<le> a \<Longrightarrow> poll_loop e tid a res = ([], Inr (a, res))"
  by (simp add: poll_loop.simps)

lemma poll_loop_pending:
  assumes "a < maxAttempts" "status_srv e tid a = Inr r" "\<not> terminal r"
  shows "poll_loop e tid a res =
           (poll_cycle @ fst (poll_loop e tid (a + 1) (Some r)),
            snd (poll_loop e tid (a + 1) (Some r)))"
  using assms
  by (subst poll_loop.simps) (simp add: terminal_def poll_cycle_def case_prod_beta)

lemma poll_loop_terminal:
  assumes "a < maxAttempts" "status_srv e tid a = Inr r" "terminal r"
  shows "poll_loop e tid a res = (poll_cycle, Inr (a, Some r))"
  using assms
  by (subst poll_loop.simps) (auto simp: terminal_def poll_cycle_def)

lemma poll_loop_throws:
  assumes "a < maxAttempts" "status_srv e tid a = Inl x"
  shows "poll_loop e tid a res = (poll_cycle, Inl x)"
  using assms
  by (subst poll_loop.simps) (simp add: poll_cycle_def)

lemma poll_loop_first_cycle:
  assumes "a < maxAttempts"
  shows "\<exists>evs. fst (poll_loop e tid a res) = poll_cycle @ evs"
proof (cases "status_srv e tid a")
  case (Inl x)
  then show ?thesis using assms by (simp add: poll_loop_throws)
next
  case (Inr r)
  then show ?thesis using assms
    by (cases "terminal r") (simp_all add: poll_loop_terminal poll_loop_pending)
qed

lemma poll_loop_events:
  "\<exists>n. n \<le> maxAttempts - a \<and> fst (poll_loop e tid a res) = concat (replicate n poll_cycle)"
proof (induction e tid a res rule: poll_loop.induct)
  case (1 e tid a res)
  show ?case
  proof (cases "a < maxAttempts")
    case False
    then have "fst (poll_loop e tid a res) = concat (replicate 0 poll_cycle)"
      by (simp add: poll_loop_exhausted)
    then show ?thesis by blast
  next
    case lt: True
    show ?thesis
    proof (cases "status_srv e tid a")
      case (Inl x)
      then have "fst (poll_loop e tid a res) = concat (replicate 1 poll_cycle)"
        using lt by (simp add: poll_loop_throws)
      moreover have "1 \<le> maxAttempts - a" using lt by simp
      ultimately show ?thesis by blast
    next
      case (Inr r)
      show ?thesis
      proof (cases "terminal r")
        case True
        then have "fst (poll_loop e tid a res) = concat (replicate 1 poll_cycle)"
          using lt Inr by (simp add: poll_loop_terminal)
        moreover have "1 \<le> maxAttempts - a" using lt by simp
        ultimately show ?thesis by blast
      next
        case False
        then have nt: "\<not> (status r = Some ''completed'' \<or> status r = Some ''error'')"
          by (simp add: terminal_def)
        from "1.IH" [OF lt Inr nt]
        obtain n where n: "n \<le> maxAttempts - (a + 1)"
          "fst (poll_loop e tid (a + 1) (Some r)) = concat (replicate n poll_cycle)"
          by blast
        have "fst (poll_loop e tid a res) = concat (replicate (Suc n) poll_cycle)"
          using lt Inr False n(2) by (simp add: poll_loop_pending)
        moreover have "Suc n \<le> maxAttempts - a" using n(1) lt by simp
        ultimately show ?thesis by blast
      qed
    qed
  qed
qed

lemma poll_loop_pending_run:
  assumes "\<forall>i. a \<le> i \<and> i < a + k \<longrightarrow> pending_at e tid i" "a + k \<le> maxAttempts"
  shows "\<exists>res'. poll_loop e tid a res =
             (concat (replicate k poll_cycle) @ fst (poll_loop e tid (a + k) res'),
              snd (poll_loop e tid (a + k) res'))
           \<and> (k = 0 \<longrightarrow> res' = res)
           \<and> (0 < k \<longrightarrow> (\<exists>r. res' = Some r \<and> \<not> terminal r))"
  using assms
proof (induction k arbitrary: a res)
  case 0
  then show ?case by simp
next
  case (Suc k)
  from Suc.prems(1) have "pending_at e tid a" by simp
  then obtain r where r: "status_srv e tid a = Inr r" "\<not> terminal r"
    by (auto simp: pending_at_def split: sum.splits)
  have lt: "a < maxAttempts" using Suc.prems(2) by simp
  have step: "poll_loop e tid a res =
           (poll_cycle @ fst (poll_loop e tid (a + 1) (Some r)),
            snd (poll_loop e tid (a + 1) (Some r)))"
    by (rule poll_loop_pending [OF lt r])
  have "\<forall>i. a + 1 \<le> i \<and> i < (a + 1) + k \<longrightarrow> pending_at e tid i"
    using Suc.prems(1) by simp
  moreover have "(a + 1) + k \<le> maxAttempts" using Suc.prems(2) by simp
  ultimately obtain res' where res':
    "poll_loop e tid (a + 1) (Some r) =
       (concat (replicate k poll_cycle) @ fst (poll_loop e tid (a + 1 + k) res'),
        snd (poll_loop e tid (a + 1 + k) res'))"
    "k = 0 \<longrightarrow> res' = Some r"
    "0 < k \<longrightarrow> (\<exists>r. res' = Some r \<and> \<not> terminal r)"
    using Suc.IH [of "a + 1" "Some r"] by blast
  have "poll_loop e tid a res =
          (concat (replicate (Suc k) poll_cycle) @ fst (poll_loop e tid (a + Suc k) res'),
           snd (poll_loop e tid (a + Suc k) res'))"
    using step res'(1) by simp
  moreover have "\<exists>r. res' = Some r \<and> \<not> terminal r"
    using res'(2,3) r(2) by (cases k) auto
  ultimately show ?case by blast
qed

lemma count_poll_cycles:
  "count_list (concat (replicate n poll_cycle)) (Call Poll) = n"
  by (induction n) (simp_all add: poll_cycle_def)


lemma processWithAssemblyAI_polling:
  assumes "upload_srv e buf = Inr url" "submit_srv e url = Inr tid"
  shows "processWithAssemblyAI e buf =
           ([Call Upload, Done Upload, Call Submit, Done Submit] @ fst (poll_loop e tid 0 None),
            (case snd (poll_loop e tid 0 None) of Inl x \<Rightarrow> Inl x | Inr st \<Rightarrow> after_loop st))"
  using assms by (simp add: processWithAssemblyAI_def case_prod_beta)

lemma sentiment_polling:
  assumes "configured (ASSEMBLYAI_API_KEY e)" "upload_srv e buf = Inr url" "submit_srv e url = Inr tid"
  shows "analyzeAudio_sentiment e (Some buf) =
           ([Call Upload, Done Upload, Call Submit, Done Submit] @ fst (poll_loop e tid 0 None),
            (case snd (poll_loop e tid 0 None) of
               Inl x \<Rightarrow> catch_sentiment x | Inr st \<Rightarrow> after_loop_sentiment st))"
  using assms by (simp add: analyzeAudio_sentiment_def case_prod_beta)

lemma poll_loop_all_pending:
  assumes "\<forall>i<maxAttempts. pending_at e tid i"
  shows "\<exists>r. \<not> terminal r \<and>
           poll_loop e tid 0 res
             = (concat (replicate maxAttempts poll_cycle), Inr (maxAttempts, Some r))"
proof -
  have h1: "\<forall>i. 0 \<le> i \<and> i < 0 + maxAttempts \<longrightarrow> pending_at e tid i" using assms by simp
  have h2: "0 + maxAttempts \<le> maxAttempts" by simp
  have pos: "0 < maxAttempts" by (simp add: maxAttempts_def)
  from poll_loop_pending_run [OF h1 h2, of res] pos
  obtain res' r where res':
    "poll_loop e tid 0 res =
       (concat (replicate maxAttempts poll_cycle) @ fst (poll_loop e tid (0 + maxAttempts) res'),
        snd (poll_loop e tid (0 + maxAttempts) res'))"
    "res' = Some r" "\<not> terminal r"
    by auto
  have "poll_loop e tid (0 + maxAttempts) res' = ([], Inr (maxAttempts, res'))"
    by (simp add: poll_loop_exhausted)
  with res' show ?thesis by simp
qed

lemma poll_loop_next_poll:
  assumes k: "k < maxAttempts" and p: "\<forall>i<k. pending_at e tid i"
  shows "k < count_list (fst (poll_loop e tid 0 res)) (Call Poll)"
proof -
  have h1: "\<forall>i. 0 \<le> i \<and> i < 0 + k \<longrightarrow> pending_at e tid i" using p by simp
  have h2: "0 + k \<le> maxAttempts" using k by simp
  from poll_loop_pending_run [OF h1 h2, of res]
  obtain res' where res':
    "poll_loop e tid 0 res =
       (concat (replicate k poll_cycle) @ fst (poll_loop e tid (0 + k) res'),
        snd (poll_loop e tid (0 + k) res'))"
    by auto
  from poll_loop_first_cycle [OF k, of e tid res']
  obtain evs where evs: "fst (poll_loop e tid k res') = poll_cycle @ evs" by auto
  have "count_list (fst (poll_loop e tid 0 res)) (Call Poll)
          = k + count_list (poll_cycle @ evs) (Call Poll)"
    using res' evs by (simp add: count_poll_cycles)
  also have "\<dots> = k + 1 + count_list evs (Call Poll)"
    by (simp add: poll_cycle_def)
  finally show ?thesis by simp
qed

lemma poll_loop_completed:
  assumes k: "k < maxAttempts" and p: "\<forall>i<k. pending_at e tid i"
    and r: "status_srv e tid k = Inr r" "terminal r"
  shows "poll_loop e tid 0 res = (concat (replicate (Suc k) poll_cycle), Inr (k, Some r))"
proof -
  have h1: "\<forall>i. 0 \<le> i \<and> i < 0 + k \<longrightarrow> pending_at e tid i" using p by simp
  have h2: "0 + k \<le> maxAttempts" using k by simp
  from poll_loop_pending_run [OF h1 h2, of res]
  obtain res' where res':
    "poll_loop e tid 0 res =
       (concat (replicate k poll_cycle) @ fst (poll_loop e tid (0 + k) res'),
        snd (poll_loop e tid (0 + k) res'))"
    by auto
  have "poll_loop e tid k res' = (poll_cycle, Inr (k, Some r))"
    by (rule poll_loop_terminal [OF k r])
  with res' have "poll_loop e tid 0 res
      = (concat (replicate k poll_cycle) @ poll_cycle, Inr (k, Some r))"
    by simp
  moreover have "concat (replicate k poll_cycle) @ poll_cycle = concat (replicate (Suc k) poll_cycle)"
    by (induction k) simp_all
  ultimately show ?thesis by simp
qed

lemma timeout_after_loop:
  assumes "\<not> terminal r"
  shows "after_loop (maxAttempts, Some r) = Inl (Exn timeout_message None)"
    and "after_loop_sentiment (maxAttempts, Some r) = Response 500 (error_body timeout_message)"
  using assms by (simp_all add: after_loop_def after_loop_sentiment_def terminal_def)

text \<open>
  Claim C3. The poll loop makes at most 30 status requests, each after a sleep of
  3000 ms, and nothing else. A status other than \<^verbatim>\<open>completed\<close> and
  \<^verbatim>\<open>error\<close> continues polling: when the first \<open>k < 30\<close> requests are
  pending, request \<open>k + 1\<close> is made. When all 30 requests are pending, the loop
  has made exactly 30 rounds, \<^verbatim>\<open>processWithAssemblyAI\<close> throws the timeout
  error, and the handler that polls in its own body answers 500 with that message.
\<close>

theorem poll_budget:
  "(\<exists>n\<le>30. fst (poll_loop e tid 0 None) = concat (replicate n [Sleep 3000, Call Poll, Done Poll]))
   \<and> (k < 30 \<and> (\<forall>i<k. pending_at e tid i) \<longrightarrow>
        k < count_list (fst (poll_loop e tid 0 None)) (Call Poll))
   \<and> ((\<forall>i<30. pending_at e tid i) \<longrightarrow>
        fst (poll_loop e tid 0 None) = concat (replicate 30 [Sleep 3000, Call Poll, Done Poll])
        \<and> (upload_srv e buf = Inr url \<and> submit_srv e url = Inr tid \<longrightarrow>
             snd (processWithAssemblyAI e buf)
               = Inl (Exn ''Processing timeout - audio too long or server busy'' None)
             \<and> (configured (ASSEMBLYAI_API_KEY e) \<longrightarrow>
                  snd (analyzeAudio_sentiment e (Some buf))
                    = Response 500 (error_body ''Processing timeout - audio too long or server busy''))))"
proof (intro conjI impI)
  show "\<exists>n\<le>30. fst (poll_loop e tid 0 None) = concat (replicate n [Sleep 3000, Call Poll, Done Poll])"
    using poll_loop_events [of 0 e tid None] by (simp add: maxAttempts_def poll_cycle_def)
next
  assume "k < 30 \<and> (\<forall>i<k. pending_at e tid i)"
  then show "k < count_list (fst (poll_loop e tid 0 None)) (Call Poll)"
    using poll_loop_next_poll [of k e tid None] by (simp add: maxAttempts_def)
next
  assume "\<forall>i<30. pending_at e tid i"
  then have "\<forall>i<maxAttempts. pending_at e tid i" by (simp add: maxAttempts_def)
  from poll_loop_all_pending [OF this, of None]
  show "fst (poll_loop e tid 0 None) = concat (replicate 30 [Sleep 3000, Call Poll, Done Poll])"
    by (auto simp: maxAttempts_def poll_cycle_def)
next
  assume p: "\<forall>i<30. pending_at e tid i"
    and u: "upload_srv e buf = Inr url \<and> submit_srv e url = Inr tid"
  from p have "\<forall>i<maxAttempts. pending_at e tid i" by (simp add: maxAttempts_def)
  from poll_loop_all_pending [OF this, of None]
  obtain r where r: "\<not> terminal r"
    "poll_loop e tid 0 None = (concat (replicate maxAttempts poll_cycle), Inr (maxAttempts, Some r))"
    by auto
  have "snd (processWithAssemblyAI e buf) = Inl (Exn timeout_message None)"
    using u r(2) timeout_after_loop(1) [OF r(1)] by (simp add: processWithAssemblyAI_polling)
  then show "snd (processWithAssemblyAI e buf)
               = Inl (Exn ''Processing timeout - audio too long or server busy'' None)"
    by (simp add: timeout_message_def)
next
  assume p: "\<forall>i<30. pending_at e tid i"
    and u: "upload_srv e buf = Inr url \<and> submit_srv e url = Inr tid"
    and c: "configured (ASSEMBLYAI_API_KEY e)"
  from p have "\<forall>i<maxAttempts. pending_at e tid i" by (simp add: maxAttempts_def)
  from poll_loop_all_pending [OF this, of None]
  obtain r where r: "\<not> terminal r"
    "poll_loop e tid 0 None = (concat (replicate maxAttempts poll_cycle), Inr (maxAttempts, Some r))"
    by auto
  have "snd (analyzeAudio_sentiment e (Some buf)) = Response 500 (error_body timeout_message)"
    using u c r(2) timeout_after_loop(2) [OF r(1)] by (simp add: sentiment_polling)
  then show "snd (analyzeAudio_sentiment e (Some buf))
               = Response 500 (error_body ''Processing timeout - audio too long or server busy'')"
    by (simp add: timeout_message_def)
qed

theorem poll_budget_witness:
  "(5::nat) < 30
   \<and> list_all (pending_at (stub_env 30) (Some ''job-1'')) [0..<30]
   \<and> upload_srv (stub_env 30) [] = Inr (Some ''https://cdn.test/upload/1'')
   \<and> submit_srv (stub_env 30) (Some ''https://cdn.test/upload/1'') = Inr (Some ''job-1'')
   \<and> configured (ASSEMBLYAI_API_KEY (stub_env 30))
   \<and> 5 < count_list (fst (poll_loop (stub_env 30) (Some ''job-1'') 0 None)) (Call Poll)
   \<and> fst (poll_loop (stub_env 30) (Some ''job-1'') 0 None)
       = concat (replicate 30 [Sleep 3000, Call Poll, Done Poll])
   \<and> snd (processWithAssemblyAI (stub_env 30) [])
       = Inl (Exn ''Processing timeout - audio too long or server busy'' None)
   \<and> snd (analyzeAudio_sentiment (stub_env 30) (Some []))
       = Response 500 (error_body ''Processing timeout - audio too long or server busy'')"
proof -
  have p: "\<forall>i<30. pending_at (stub_env 30) (Some ''job-1'') i"
    by (simp add: pending_at_def stub_env_def terminal_def pending_result_def)
  then have p5: "\<forall>i<5. pending_at (stub_env 30) (Some ''job-1'') i" by simp
  have l: "list_all (pending_at (stub_env 30) (Some ''job-1'')) [0..<30]"
    using p by (simp add: list_all_iff)
  have n: "(5::nat) < 30" by simp
  have u: "upload_srv (stub_env 30) [] = Inr (Some ''https://cdn.test/upload/1'')"
    "submit_srv (stub_env 30) (Some ''https://cdn.test/upload/1'') = Inr (Some ''job-1'')"
    "configured (ASSEMBLYAI_API_KEY (stub_env 30))"
    by (simp_all add: stub_env_def configured_def)
  from poll_budget [where e = "stub_env 30" and tid = "Some ''job-1''" and k = 5
                      and buf = "[]" and url = "Some ''https://cdn.test/upload/1''"]
       n p p5 u l
  show ?thesis by blast
qed

text \<open>
  Claim C10. When the first \<open>i - 1\<close> status requests are pending and request
  \<open>i\<close> reports \<^verbatim>\<open>completed\<close>, for any \<open>i\<close> from 1 to 30,
  \<^verbatim>\<open>processWithAssemblyAI\<close> returns that result after exactly \<open>i\<close> requests:
  the loop is left with the counter at \<open>i - 1\<close>, below the budget, so the check
  for the timeout after the loop does not fire, also for \<open>i = 30\<close>.
\<close>

theorem completed_poll_returns_result:
  assumes "1 \<le> i" "i \<le> 30"
    and "upload_srv e buf = Inr url" "submit_srv e url = Inr tid"
    and "\<forall>j<i - 1. pending_at e tid j"
    and "status_srv e tid (i - 1) = Inr r" "status r = Some ''completed''"
  shows "snd (processWithAssemblyAI e buf) = Inr r
         \<and> count_list (fst (processWithAssemblyAI e buf)) (Call Poll) = i
         \<and> snd (poll_loop e tid 0 None) = Inr (i - 1, Some r)"
proof -
  have lt: "i - 1 < maxAttempts" using assms(1,2) by (simp add: maxAttempts_def)
  have t: "terminal r" using assms(7) by (simp add: terminal_def)
  have loop: "poll_loop e tid 0 None = (concat (replicate (Suc (i - 1)) poll_cycle), Inr (i - 1, Some r))"
    by (rule poll_loop_completed [OF lt assms(5,6) t])
  have after: "after_loop (i - 1, Some r) = Inr r"
    using assms(7) lt by (simp add: after_loop_def)
  have cnt: "count_list (concat (replicate (Suc (i - 1)) poll_cycle)) (Call Poll) = i"
    using assms(1) by (simp only: count_poll_cycles)
  show ?thesis
    using loop after cnt
    by (simp add: processWithAssemblyAI_polling [OF assms(3,4)] del: replicate_Suc)
qed

theorem completed_poll_returns_result_witness:
  "(1::nat) \<le> 30 \<and> (30::nat) \<le> 30
   \<and> upload_srv (stub_env 29) [] = Inr (Some ''https://cdn.test/upload/1'')
   \<and> submit_srv (stub_env 29) (Some ''https://cdn.test/upload/1'') = Inr (Some ''job-1'')
   \<and> list_all (pending_at (stub_env 29) (Some ''job-1'')) [0..<30 - 1]
   \<and> status_srv (stub_env 29) (Some ''job-1'') (30 - 1) = Inr completed_result
   \<and> status completed_result = Some ''completed''
   \<and> snd (processWithAssemblyAI (stub_env 29) []) = Inr completed_result
   \<and> count_list (fst (processWithAssemblyAI (stub_env 29) [])) (Call Poll) = 30"
proof -
  have p: "\<forall>j<30 - 1. pending_at (stub_env 29) (Some ''job-1'') j"
    by (simp add: pending_at_def stub_env_def terminal_def pending_result_def)
  have l: "list_all (pending_at (stub_env 29) (Some ''job-1'')) [0..<30 - 1]"
    using p by (simp add: list_all_iff)
  have u: "upload_srv (stub_env 29) [] = Inr (Some ''https://cdn.test/upload/1'')"
    "submit_srv (stub_env 29) (Some ''https://cdn.test/upload/1'') = Inr (Some ''job-1'')"
    "status_srv (stub_env 29) (Some ''job-1'') (30 - 1) = Inr completed_result"
    "status completed_result = Some ''completed''"
    by (simp_all add: stub_env_def completed_result_def)
  have n: "(1::nat) \<le> 30" "(30::nat) \<le> 30" by simp_all
  from completed_poll_returns_result [OF n u(1,2) p u(3,4)] n l u
  show ?thesis by blast
qed

section \<open>How the handlers run\<close>

lemma analyzeAudio_fallback_run:
  assumes "configured (ASSEMBLYAI_API_KEY e)"
  shows "analyzeAudio_fallback e (Some b) =
    (fst (processWithAssemblyAI e b) @ fst (fallback_hugging e b)
       @ fst (fallback_perplexity e (fallback_assemblyResult e b) (snd (fallback_hugging e b))),
     (case assemble_fallback (fallback_assemblyResult e b) (snd (fallback_hugging e b))
             (snd (fallback_perplexity e (fallback_assemblyResult e b) (snd (fallback_hugging e b)))) of
        Inl x \<Rightarrow> Inr (Response 200 simulated_body)
      | Inr doc \<Rightarrow> Inr (Response 200 doc)))"
  using assms
  by (simp add: analyzeAudio_fallback_def case_prod_beta Let_def respond_simulated_const
      fallback_assemblyResult_def fallback_hugging_def fallback_perplexity_def
      processWithHuggingFace_fallback_def cong: sum.case_cong)

lemma analyzeAudio_perplexity_ok:
  assumes "configured (ASSEMBLYAI_API_KEY e)" "snd (processWithAssemblyAI e b) = Inr r"
  shows "analyzeAudio_perplexity e sched (Some b) =
    (interleave sched True (fst (processWithAssemblyAI e b)) (fst (perplexity_hugging e b))
       @ fst (perplexity_report e r (snd (perplexity_hugging e b))),
     (case assemble_perplexity r (snd (perplexity_hugging e b))
             (snd (perplexity_report e r (snd (perplexity_hugging e b)))) of
        Inl x \<Rightarrow> catch_500 x
      | Inr doc \<Rightarrow> Response 200 doc))"
  using assms
  by (simp add: analyzeAudio_perplexity_def case_prod_beta Let_def
      perplexity_hugging_def perplexity_report_def processWithHuggingFace_perplexity_def
      error_slot_def cong: sum.case_cong)

lemma analyzeAudio_perplexity_fail:
  assumes "configured (ASSEMBLYAI_API_KEY e)" "snd (processWithAssemblyAI e b) = Inl x"
  shows "analyzeAudio_perplexity e sched (Some b) =
    (interleave sched False (fst (processWithAssemblyAI e b)) (fst (perplexity_hugging e b)),
     catch_500 x)"
  using assms
  by (simp add: analyzeAudio_perplexity_def case_prod_beta Let_def
      perplexity_hugging_def processWithHuggingFace_perplexity_def)

lemma analyzeAudio_watson_ok:
  assumes "configured (ASSEMBLYAI_API_KEY e)" "snd (processWithAssemblyAI e b) = Inr r"
  shows "analyzeAudio_watson e (Some b) =
    (fst (processWithAssemblyAI e b) @ fst (watson_hugging e r) @ fst (watson_tones e r),
     (case assemble_watson r (snd (watson_hugging e r)) (snd (watson_tones e r)) of
        Inl x \<Rightarrow> catch_500 x
      | Inr doc \<Rightarrow> Response 200 doc))"
  using assms
  by (simp add: analyzeAudio_watson_def case_prod_beta Let_def
      watson_hugging_def watson_tones_def processWithHuggingFace_watson_def
      processWithIBMWatson_def cong: sum.case_cong)

lemma analyzeAudio_watson_fail:
  assumes "configured (ASSEMBLYAI_API_KEY e)" "snd (processWithAssemblyAI e b) = Inl x"
  shows "analyzeAudio_watson e (Some b) = (fst (processWithAssemblyAI e b), catch_500 x)"
  using assms
  by (simp add: analyzeAudio_watson_def case_prod_beta)


lemma poll_loop_same_service:
  assumes "status_srv e1 = status_srv e2"
  shows "poll_loop e1 tid a res = poll_loop e2 tid a res"
  using assms
proof (induction e1 tid a res rule: poll_loop.induct)
  case (1 e tid a res)
  show ?case
  proof (cases "a < maxAttempts")
    case False
    then show ?thesis by (simp add: poll_loop_exhausted)
  next
    case lt: True
    show ?thesis
    proof (cases "status_srv e tid a")
      case (Inl x)
      then have "status_srv e2 tid a = Inl x" using "1.prems" by simp
      with Inl lt show ?thesis by (simp add: poll_loop_throws)
    next
      case (Inr r)
      then have r2: "status_srv e2 tid a = Inr r" using "1.prems" by simp
      show ?thesis
      proof (cases "terminal r")
        case True
        with Inr r2 lt show ?thesis by (simp add: poll_loop_terminal)
      next
        case False
        then have nt: "\<not> (status r = Some ''completed'' \<or> status r = Some ''error'')"
          by (simp add: terminal_def)
        from "1.IH" [OF lt Inr nt "1.prems"]
        have "poll_loop e tid (a + 1) (Some r) = poll_loop e2 tid (a + 1) (Some r)" .
        with Inr r2 lt False show ?thesis by (simp add: poll_loop_pending)
      qed
    qed
  qed
qed

lemma processWithAssemblyAI_same_service:
  assumes "upload_srv e1 = upload_srv e2" "submit_srv e1 = submit_srv e2"
    "status_srv e1 = status_srv e2"
  shows "processWithAssemblyAI e1 b = processWithAssemblyAI e2 b"
  using assms poll_loop_same_service [OF assms(3)]
  by (simp add: processWithAssemblyAI_def cong: sum.case_cong)

lemma assemble_fallback_fields:
  assumes "k = ''transcript'' \<or> k = ''audioMetrics''"
  shows "(case assemble_fallback a h p of
            Inl x \<Rightarrow> field k simulated_body | Inr doc \<Rightarrow> field k doc)
       = (case assemble_fallback a h' p' of
            Inl x \<Rightarrow> field k simulated_body | Inr doc \<Rightarrow> field k doc)"
  using assms by (auto simp: assemble_fallback_def split: sum.split)

lemma assemble_perplexity_fields:
  assumes "k = ''transcript'' \<or> k = ''audioMetrics''"
  shows "field k (body (case assemble_perplexity a h p of
                          Inl x \<Rightarrow> catch_500 x | Inr doc \<Rightarrow> Response 200 doc))
       = field k (body (case assemble_perplexity a h' p' of
                          Inl x \<Rightarrow> catch_500 x | Inr doc \<Rightarrow> Response 200 doc))"
  using assms by (auto simp: assemble_perplexity_def split: sum.split)

lemma assemble_watson_fields:
  assumes "k = ''transcript'' \<or> k = ''audioMetrics''"
  shows "field k (body (case assemble_watson a h p of
                          Inl x \<Rightarrow> catch_500 x | Inr doc \<Rightarrow> Response 200 doc))
       = field k (body (case assemble_watson a h' p' of
                          Inl x \<Rightarrow> catch_500 x | Inr doc \<Rightarrow> Response 200 doc))"
  using assms by (auto simp: assemble_watson_def split: sum.split)

lemma analyzeAudio_fallback_responds:
  "\<exists>r. snd (analyzeAudio_fallback e file) = Inr r"
proof (cases "file")
  case None
  then show ?thesis by (simp add: analyzeAudio_fallback_def)
next
  case (Some b)
  show ?thesis
  proof (cases "configured (ASSEMBLYAI_API_KEY e)")
    case True
    then show ?thesis
      unfolding Some analyzeAudio_fallback_run [OF True]
      by (simp split: sum.split)
  next
    case False
    then show ?thesis
      by (simp add: Some analyzeAudio_fallback_def respond_simulated_const)
  qed
qed

lemma fallback_field:
  assumes "configured (ASSEMBLYAI_API_KEY e)"
  shows "response_field k (snd (analyzeAudio_fallback e (Some b)))
       = (case assemble_fallback (fallback_assemblyResult e b) (snd (fallback_hugging e b))
                 (snd (fallback_perplexity e (fallback_assemblyResult e b) (snd (fallback_hugging e b)))) of
            Inl x \<Rightarrow> field k simulated_body | Inr doc \<Rightarrow> field k doc)"
  unfolding analyzeAudio_fallback_run [OF assms]
  by (simp add: response_field_def split: sum.split)

section \<open>Repeated requests\<close>

text \<open>
  Claim C8. Two runs on the same audio against the same transcription service (the
  same key, and upload, submission and status endpoints that answer the same
  requests alike) send the same \<^verbatim>\<open>transcript\<close> and the same
  \<^verbatim>\<open>audioMetrics\<close>, whatever the emotion, report and tone providers answer in
  the two runs and whenever the parallel emotion request is settled.
\<close>

theorem transcript_and_metrics_repeatable:
  assumes key: "ASSEMBLYAI_API_KEY e1 = ASSEMBLYAI_API_KEY e2"
    and srv: "upload_srv e1 = upload_srv e2" "submit_srv e1 = submit_srv e2"
      "status_srv e1 = status_srv e2"
    and k: "k = ''transcript'' \<or> k = ''audioMetrics''"
  shows "(\<exists>r1 r2. snd (analyzeAudio_fallback e1 file) = Inr r1
            \<and> snd (analyzeAudio_fallback e2 file) = Inr r2
            \<and> field k (body r1) = field k (body r2))
       \<and> field k (body (snd (analyzeAudio_perplexity e1 sched1 file)))
           = field k (body (snd (analyzeAudio_perplexity e2 sched2 file)))
       \<and> field k (body (snd (analyzeAudio_watson e1 file)))
           = field k (body (snd (analyzeAudio_watson e2 file)))"
proof -
  have fb: "response_field k (snd (analyzeAudio_fallback e1 file))
          = response_field k (snd (analyzeAudio_fallback e2 file))"
  proof (cases "file")
    case None
    then show ?thesis by (simp add: analyzeAudio_fallback_def)
  next
    case (Some b)
    show ?thesis
    proof (cases "configured (ASSEMBLYAI_API_KEY e1)")
      case False
      then show ?thesis using key
        by (simp add: Some analyzeAudio_fallback_def respond_simulated_const)
    next
      case True
      then have c2: "configured (ASSEMBLYAI_API_KEY e2)" using key by simp
      have "fallback_assemblyResult e1 b = fallback_assemblyResult e2 b"
        by (simp add: fallback_assemblyResult_def processWithAssemblyAI_same_service [OF srv])
      then show ?thesis
        unfolding Some fallback_field [OF True] fallback_field [OF c2]
        using assemble_fallback_fields [OF k] by simp
    qed
  qed
  obtain r1 r2 where r: "snd (analyzeAudio_fallback e1 file) = Inr r1"
    "snd (analyzeAudio_fallback e2 file) = Inr r2"
    using analyzeAudio_fallback_responds by metis
  have 1: "\<exists>r1 r2. snd (analyzeAudio_fallback e1 file) = Inr r1
            \<and> snd (analyzeAudio_fallback e2 file) = Inr r2
            \<and> field k (body r1) = field k (body r2)"
    using fb r by (simp add: response_field_def)
  have 2: "field k (body (snd (analyzeAudio_perplexity e1 sched1 file)))
           = field k (body (snd (analyzeAudio_perplexity e2 sched2 file)))"
  proof (cases "file")
    case None
    then show ?thesis by (simp add: analyzeAudio_perplexity_def)
  next
    case (Some b)
    show ?thesis
    proof (cases "configured (ASSEMBLYAI_API_KEY e1)")
      case False
      then show ?thesis using key by (simp add: Some analyzeAudio_perplexity_def)
    next
      case True
      then have c2: "configured (ASSEMBLYAI_API_KEY e2)" using key by simp
      have same: "processWithAssemblyAI e1 b = processWithAssemblyAI e2 b"
        by (rule processWithAssemblyAI_same_service [OF srv])
      show ?thesis
      proof (cases "snd (processWithAssemblyAI e1 b)")
        case (Inl x)
        then have "snd (processWithAssemblyAI e2 b) = Inl x" using same by simp
        then show ?thesis
          by (simp add: Some analyzeAudio_perplexity_fail [OF True Inl]
              analyzeAudio_perplexity_fail [OF c2])
      next
        case (Inr r)
        then have "snd (processWithAssemblyAI e2 b) = Inr r" using same by simp
        then show ?thesis
          unfolding Some
          by (simp add: analyzeAudio_perplexity_ok [OF True Inr]
              analyzeAudio_perplexity_ok [OF c2] assemble_perplexity_fields [OF k]
              )
      qed
    qed
  qed
  have 3: "field k (body (snd (analyzeAudio_watson e1 file)))
           = field k (body (snd (analyzeAudio_watson e2 file)))"
  proof (cases "file")
    case None
    then show ?thesis by (simp add: analyzeAudio_watson_def)
  next
    case (Some b)
    show ?thesis
    proof (cases "configured (ASSEMBLYAI_API_KEY e1)")
      case False
      then show ?thesis using key by (simp add: Some analyzeAudio_watson_def)
    next
      case True
      then have c2: "configured (ASSEMBLYAI_API_KEY e2)" using key by simp
      have same: "processWithAssemblyAI e1 b = processWithAssemblyAI e2 b"
        by (rule processWithAssemblyAI_same_service [OF srv])
      show ?thesis
      proof (cases "snd (processWithAssemblyAI e1 b)")
        case (Inl x)
        then have "snd (processWithAssemblyAI e2 b) = Inl x" using same by simp
        then show ?thesis
          by (simp add: Some analyzeAudio_watson_fail [OF True Inl]
              analyzeAudio_watson_fail [OF c2])
      next
        case (Inr r)
        then have "snd (processWithAssemblyAI e2 b) = Inr r" using same by simp
        then show ?thesis
          unfolding Some
          by (simp add: analyzeAudio_watson_ok [OF True Inr]
              analyzeAudio_watson_ok [OF c2] assemble_watson_fields [OF k])
      qed
    qed
  qed
  show ?thesis using 1 2 3 by blast
qed

theorem transcript_and_metrics_repeatable_witness:
  "ASSEMBLYAI_API_KEY (stub_env 1) = ASSEMBLYAI_API_KEY flaky_env
   \<and> upload_srv (stub_env 1) = upload_srv flaky_env
   \<and> submit_srv (stub_env 1) = submit_srv flaky_env
   \<and> status_srv (stub_env 1) = status_srv flaky_env
   \<and> (''audioMetrics'' = ''transcript'' \<or> ''audioMetrics'' = ''audioMetrics'')
   \<and> field ''audioMetrics'' (body (snd (analyzeAudio_perplexity (stub_env 1) 3 (Some []))))
       = field ''audioMetrics'' (body (snd (analyzeAudio_perplexity flaky_env 0 (Some []))))
   \<and> field ''audioMetrics'' (body (snd (analyzeAudio_watson (stub_env 1) (Some []))))
       = field ''audioMetrics'' (body (snd (analyzeAudio_watson flaky_env (Some []))))
   \<and> (\<exists>r1 r2. snd (analyzeAudio_fallback (stub_env 1) (Some [])) = Inr r1
            \<and> snd (analyzeAudio_fallback flaky_env (Some [])) = Inr r2
            \<and> field ''audioMetrics'' (body r1) = field ''audioMetrics'' (body r2))"
proof -
  have h: "ASSEMBLYAI_API_KEY (stub_env 1) = ASSEMBLYAI_API_KEY flaky_env"
    "upload_srv (stub_env 1) = upload_srv flaky_env"
    "submit_srv (stub_env 1) = submit_srv flaky_env"
    "status_srv (stub_env 1) = status_srv flaky_env"
    by (simp_all add: flaky_env_def)
  have k: "''audioMetrics'' = ''transcript'' \<or> ''audioMetrics'' = ''audioMetrics''" by simp
  from transcript_and_metrics_repeatable [OF h k, of "Some []" 3 0] h k
  show ?thesis by blast
qed

section \<open>Order of the calls\<close>

lemma poll_loop_events_transcription:
  "\<forall>ev \<in> set (fst (poll_loop e tid a res)). of_transcription ev"
proof -
  obtain n where "fst (poll_loop e tid a res) = concat (replicate n poll_cycle)"
    using poll_loop_events by blast
  then show ?thesis by (auto simp: poll_cycle_def)
qed

lemma processWithAssemblyAI_events:
  "\<forall>ev \<in> set (fst (processWithAssemblyAI e b)). of_transcription ev"
  using poll_loop_events_transcription [of e _ 0 None]
  by (auto simp: processWithAssemblyAI_def case_prod_beta split: sum.split)

lemma processWithAssemblyAI_nonempty:
  "fst (processWithAssemblyAI e b) \<noteq> []"
  by (simp add: processWithAssemblyAI_def case_prod_beta split: sum.split)

lemma set_interleave_upper:
  "set (interleave sched wait tev hev) \<subseteq> set tev \<union> set hev"
  by (auto simp: interleave_def split: list.split dest: in_set_takeD in_set_dropD)

lemma set_interleave_lower:
  "set tev \<subseteq> set (interleave sched wait tev hev)"
proof -
  have "set (take sched xs @ ds @ drop sched xs) = set xs \<union> set ds" for xs ds :: "event list"
    using set_append [of "take sched xs" "drop sched xs"] by auto
  then show ?thesis
    by (auto simp: interleave_def split: list.split)
qed

lemma set_interleave_wait:
  assumes "tev \<noteq> []"
  shows "set (interleave sched True tev hev) = set tev \<union> set hev"
proof -
  have "set (take sched xs @ ds @ drop sched xs) = set xs \<union> set ds" for xs ds :: "event list"
    using set_append [of "take sched xs" "drop sched xs"] by auto
  then show ?thesis using assms
    by (auto simp: interleave_def split: list.split)
qed

lemma split_after_prefix:
  assumes "q \<notin> set xs" "xs @ ys = pre @ q # post"
  shows "\<exists>zs. pre = xs @ zs \<and> ys = zs @ q # post"
  using assms
proof (induction xs arbitrary: pre)
  case Nil
  then show ?case by simp
next
  case (Cons x xs)
  then show ?case by (cases pre) auto
qed

lemma fst_perplexity_hugging:
  "fst (perplexity_hugging e b) =
     (if configured (HUGGING_FACE_TOKEN e) then [Call HuggingFace, Done HuggingFace] else [])"
  by (simp add: perplexity_hugging_def)

lemma fst_perplexity_report:
  "fst (perplexity_report e r h) = [] \<or>
   fst (perplexity_report e r h) = [Call Perplexity, Done Perplexity]"
  by (simp add: perplexity_report_def processWithPerplexity_perplexity_def split: sum.split)

lemma fst_fallback_hugging:
  "fst (fallback_hugging e b) =
     (if configured (HUGGING_FACE_TOKEN e) then [Call HuggingFace, Done HuggingFace] else [])"
  by (simp add: fallback_hugging_def)

lemma fst_fallback_perplexity:
  "fst (fallback_perplexity e r h) = [] \<or>
   fst (fallback_perplexity e r h) = [Call Perplexity, Done Perplexity]"
  by (simp add: fallback_perplexity_def processWithPerplexity_fallback_def split: sum.split)

lemma fst_watson_hugging:
  "fst (watson_hugging e r) =
     (if configured (HUGGING_FACE_TOKEN e) then [Call HuggingFace, Done HuggingFace] else [])"
  by (simp add: watson_hugging_def)

lemma fst_watson_tones:
  "fst (watson_tones e r) =
     (if configured (IBM_WATSON_API_KEY e) \<and> configured (IBM_WATSON_URL e)
      then [Call Watson, Done Watson] else [])"
  by (simp add: watson_tones_def)

lemma perplexity_order:
  assumes tr: "fst (analyzeAudio_perplexity e sched (Some b)) = pre @ Call Perplexity # post"
  shows "(\<exists>r. snd (processWithAssemblyAI e b) = Inr r)
       \<and> set (fst (processWithAssemblyAI e b)) \<subseteq> set pre
       \<and> (\<forall>ev \<in> set post. \<not> of_transcription ev)
       \<and> (Call HuggingFace \<in> set (fst (analyzeAudio_perplexity e sched (Some b)))
            \<longrightarrow> Done HuggingFace \<in> set pre)"
proof -
  let ?tev = "fst (processWithAssemblyAI e b)"
  let ?hev = "fst (perplexity_hugging e b)"
  have key: "configured (ASSEMBLYAI_API_KEY e)"
  proof (rule ccontr)
    assume "\<not> configured (ASSEMBLYAI_API_KEY e)"
    then have "fst (analyzeAudio_perplexity e sched (Some b)) = []"
      by (simp add: analyzeAudio_perplexity_def)
    with tr show False by simp
  qed
  have notin: "Call Perplexity \<notin> set (interleave sched w ?tev ?hev)" for w
  proof
    assume "Call Perplexity \<in> set (interleave sched w ?tev ?hev)"
    then have "Call Perplexity \<in> set ?tev \<or> Call Perplexity \<in> set ?hev"
      using set_interleave_upper [of sched w ?tev ?hev] by blast
    moreover have "Call Perplexity \<notin> set ?tev"
      using processWithAssemblyAI_events [of e b] by fastforce
    moreover have "Call Perplexity \<notin> set ?hev"
      by (simp add: fst_perplexity_hugging)
    ultimately show False by blast
  qed
  show ?thesis
  proof (cases "snd (processWithAssemblyAI e b)")
    case (Inl x)
    have "fst (analyzeAudio_perplexity e sched (Some b)) = interleave sched False ?tev ?hev"
      by (simp add: analyzeAudio_perplexity_fail [OF key Inl])
    with tr notin [of False] show ?thesis by simp
  next
    case (Inr r)
    let ?pev = "fst (perplexity_report e r (snd (perplexity_hugging e b)))"
    have run: "fst (analyzeAudio_perplexity e sched (Some b)) = interleave sched True ?tev ?hev @ ?pev"
      by (simp add: analyzeAudio_perplexity_ok [OF key Inr])
    from split_after_prefix [OF notin [of True]] tr run
    obtain zs where zs: "pre = interleave sched True ?tev ?hev @ zs" "?pev = zs @ Call Perplexity # post"
      by metis
    have "set post \<subseteq> set ?pev" using zs(2) by auto
    moreover have "\<forall>ev \<in> set ?pev. \<not> of_transcription ev"
      using fst_perplexity_report [of e r "snd (perplexity_hugging e b)"] by auto
    ultimately have post: "\<forall>ev \<in> set post. \<not> of_transcription ev" by blast
    have sub: "set ?tev \<subseteq> set pre"
      using set_interleave_lower [of ?tev sched True ?hev] zs(1) by auto
    have hf: "Done HuggingFace \<in> set pre"
      if "Call HuggingFace \<in> set (fst (analyzeAudio_perplexity e sched (Some b)))"
    proof -
      have "Call HuggingFace \<notin> set ?tev"
        using processWithAssemblyAI_events [of e b] by fastforce
      moreover have "Call HuggingFace \<notin> set ?pev"
        using fst_perplexity_report [of e r "snd (perplexity_hugging e b)"] by auto
      moreover have "Call HuggingFace \<in> set (interleave sched True ?tev ?hev) \<or>
                     Call HuggingFace \<in> set ?pev"
        using that run by simp
      ultimately have "Call HuggingFace \<in> set ?hev"
        using set_interleave_upper [of sched True ?tev ?hev] by blast
      then have "Done HuggingFace \<in> set ?hev"
        by (auto simp: fst_perplexity_hugging split: if_splits)
      then show ?thesis
        using zs(1) set_interleave_wait [OF processWithAssemblyAI_nonempty, of sched e b ?hev]
        by auto
    qed
    show ?thesis using Inr post sub hf by auto
  qed
qed


lemma watson_order:
  assumes tr: "fst (analyzeAudio_watson e (Some b)) = pre @ Call c # post"
    and c: "c = HuggingFace \<or> c = Watson"
  shows "(\<exists>r. snd (processWithAssemblyAI e b) = Inr r)
       \<and> set (fst (processWithAssemblyAI e b)) \<subseteq> set pre
       \<and> (\<forall>ev \<in> set post. \<not> of_transcription ev)"
proof -
  let ?tev = "fst (processWithAssemblyAI e b)"
  have key: "configured (ASSEMBLYAI_API_KEY e)"
  proof (rule ccontr)
    assume "\<not> configured (ASSEMBLYAI_API_KEY e)"
    then have "fst (analyzeAudio_watson e (Some b)) = []"
      by (simp add: analyzeAudio_watson_def)
    with tr show False by simp
  qed
  have "\<not> of_transcription (Call c)" using c by auto
  then have notin: "Call c \<notin> set ?tev"
    using processWithAssemblyAI_events [of e b] by blast
  show ?thesis
  proof (cases "snd (processWithAssemblyAI e b)")
    case (Inl x)
    have "fst (analyzeAudio_watson e (Some b)) = ?tev"
      by (simp add: analyzeAudio_watson_fail [OF key Inl])
    with tr notin show ?thesis by simp
  next
    case (Inr r)
    let ?rest = "fst (watson_hugging e r) @ fst (watson_tones e r)"
    have run: "fst (analyzeAudio_watson e (Some b)) = ?tev @ ?rest"
      by (simp add: analyzeAudio_watson_ok [OF key Inr])
    from split_after_prefix [OF notin] tr run
    obtain zs where zs: "pre = ?tev @ zs" "?rest = zs @ Call c # post"
      by metis
    have "set post \<subseteq> set ?rest" using zs(2) by auto
    moreover have "\<forall>ev \<in> set ?rest. \<not> of_transcription ev"
      by (auto simp: fst_watson_hugging fst_watson_tones)
    ultimately have post: "\<forall>ev \<in> set post. \<not> of_transcription ev" by blast
    show ?thesis using Inr post zs(1) by auto
  qed
qed

lemma fallback_order:
  assumes tr: "fst (analyzeAudio_fallback e (Some b)) = pre @ Call Perplexity # post"
  shows "set (fst (processWithAssemblyAI e b)) \<subseteq> set pre
       \<and> (\<forall>ev \<in> set post. \<not> of_transcription ev)
       \<and> (Call HuggingFace \<in> set (fst (analyzeAudio_fallback e (Some b)))
            \<longrightarrow> Done HuggingFace \<in> set pre)"
proof -
  let ?tev = "fst (processWithAssemblyAI e b)"
  let ?hev = "fst (fallback_hugging e b)"
  let ?pev = "fst (fallback_perplexity e (fallback_assemblyResult e b) (snd (fallback_hugging e b)))"
  have key: "configured (ASSEMBLYAI_API_KEY e)"
  proof (rule ccontr)
    assume "\<not> configured (ASSEMBLYAI_API_KEY e)"
    then have "fst (analyzeAudio_fallback e (Some b)) = []"
      by (simp add: analyzeAudio_fallback_def)
    with tr show False by simp
  qed
  have run: "fst (analyzeAudio_fallback e (Some b)) = (?tev @ ?hev) @ ?pev"
    by (simp add: analyzeAudio_fallback_run [OF key])
  have "Call Perplexity \<notin> set ?tev"
    using processWithAssemblyAI_events [of e b] by fastforce
  moreover have "Call Perplexity \<notin> set ?hev"
    by (simp add: fst_fallback_hugging)
  ultimately have notin: "Call Perplexity \<notin> set (?tev @ ?hev)" by simp
  from split_after_prefix [OF notin] tr run
  obtain zs where zs: "pre = (?tev @ ?hev) @ zs" "?pev = zs @ Call Perplexity # post"
    by metis
  have "set post \<subseteq> set ?pev" using zs(2) by auto
  moreover have pev: "\<forall>ev \<in> set ?pev. \<not> of_transcription ev \<and> ev \<noteq> Call HuggingFace"
    using fst_fallback_perplexity
            [of e "fallback_assemblyResult e b" "snd (fallback_hugging e b)"]
    by auto
  ultimately have post: "\<forall>ev \<in> set post. \<not> of_transcription ev" by blast
  have hf: "Done HuggingFace \<in> set pre"
    if "Call HuggingFace \<in> set (fst (analyzeAudio_fallback e (Some b)))"
  proof -
    have "Call HuggingFace \<notin> set ?tev"
      using processWithAssemblyAI_events [of e b] by fastforce
    moreover have "Call HuggingFace \<notin> set ?pev" using pev by blast
    ultimately have "Call HuggingFace \<in> set ?hev" using that run by simp
    then have "Done HuggingFace \<in> set ?hev"
      by (auto simp: fst_fallback_hugging split: if_splits)
    then show ?thesis using zs(1) by simp
  qed
  show ?thesis using post zs(1) hf by auto
qed

text \<open>
  Claim C6. In the trace of a run, cut at the request of a provider that reads the
  transcript (the generative analysis; in the handler with the tone analysis, the
  emotion and the tone request): every event of the transcription lies before the
  cut and none after it, and where the handler stops on a failed transcription the
  transcription has returned a result. When the emotion request was issued, it is
  settled before the request of the generative analysis is issued.
\<close>

theorem enrichment_after_transcription:
  "(fst (analyzeAudio_perplexity e sched (Some b)) = pre @ Call Perplexity # post \<longrightarrow>
      (\<exists>r. snd (processWithAssemblyAI e b) = Inr r)
      \<and> set (fst (processWithAssemblyAI e b)) \<subseteq> set pre
      \<and> (\<forall>ev \<in> set post. \<not> of_transcription ev)
      \<and> (Call HuggingFace \<in> set (fst (analyzeAudio_perplexity e sched (Some b)))
            \<longrightarrow> Done HuggingFace \<in> set pre))
   \<and> (fst (analyzeAudio_watson e (Some b)) = pre' @ Call c # post'
        \<and> (c = HuggingFace \<or> c = Watson) \<longrightarrow>
      (\<exists>r. snd (processWithAssemblyAI e b) = Inr r)
      \<and> set (fst (processWithAssemblyAI e b)) \<subseteq> set pre'
      \<and> (\<forall>ev \<in> set post'. \<not> of_transcription ev))
   \<and> (fst (analyzeAudio_fallback e (Some b)) = pre'' @ Call Perplexity # post'' \<longrightarrow>
      set (fst (processWithAssemblyAI e b)) \<subseteq> set pre''
      \<and> (\<forall>ev \<in> set post''. \<not> of_transcription ev)
      \<and> (Call HuggingFace \<in> set (fst (analyzeAudio_fallback e (Some b)))
            \<longrightarrow> Done HuggingFace \<in> set pre''))"
  using perplexity_order [of e sched b pre post] watson_order [of e b pre' c post']
    fallback_order [of e b pre'' post'']
  by blast

lemma stub_traces:
  "fst (processWithAssemblyAI (stub_env 1) []) =
     [Call Upload, Done Upload, Call Submit, Done Submit,
      Sleep 3000, Call Poll, Done Poll, Sleep 3000, Call Poll, Done Poll]"
  "snd (processWithAssemblyAI (stub_env 1) []) = Inr completed_result"
  "fst (analyzeAudio_perplexity (stub_env 1) 3 (Some [])) =
     [Call Upload, Call HuggingFace, Done Upload, Call Submit, Done Submit, Done HuggingFace,
      Sleep 3000, Call Poll, Done Poll, Sleep 3000, Call Poll, Done Poll]
     @ Call Perplexity # [Done Perplexity]"
  "fst (analyzeAudio_watson (stub_env 1) (Some [])) =
     [Call Upload, Done Upload, Call Submit, Done Submit,
      Sleep 3000, Call Poll, Done Poll, Sleep 3000, Call Poll, Done Poll]
     @ Call HuggingFace # [Done HuggingFace, Call Watson, Done Watson]"
  "fst (analyzeAudio_fallback (stub_env 1) (Some [])) =
     [Call Upload, Done Upload, Call Submit, Done Submit,
      Sleep 3000, Call Poll, Done Poll, Sleep 3000, Call Poll, Done Poll,
      Call HuggingFace, Done HuggingFace]
     @ Call Perplexity # [Done Perplexity]"
  by (simp_all add: analyzeAudio_perplexity_def analyzeAudio_watson_def analyzeAudio_fallback_def
      processWithAssemblyAI_def poll_loop.simps maxAttempts_def after_loop_def
      stub_env_def configured_def completed_result_def pending_result_def
      processWithHuggingFace_perplexity_def processWithPerplexity_perplexity_def
      processWithHuggingFace_watson_def processWithIBMWatson_def
      processWithHuggingFace_fallback_def processWithPerplexity_fallback_def
      assemble_perplexity_def assemble_watson_def assemble_fallback_def
      interleave_def calculateWPM_def split_ws_def is_space_def math_round_def
      str_or_def num_or_def Let_def)

theorem enrichment_after_transcription_witness:
  "fst (analyzeAudio_perplexity (stub_env 1) 3 (Some [])) =
     [Call Upload, Call HuggingFace, Done Upload, Call Submit, Done Submit, Done HuggingFace,
      Sleep 3000, Call Poll, Done Poll, Sleep 3000, Call Poll, Done Poll]
     @ Call Perplexity # [Done Perplexity]
   \<and> fst (analyzeAudio_watson (stub_env 1) (Some [])) =
     [Call Upload, Done Upload, Call Submit, Done Submit,
      Sleep 3000, Call Poll, Done Poll, Sleep 3000, Call Poll, Done Poll]
     @ Call HuggingFace # [Done HuggingFace, Call Watson, Done Watson]
   \<and> fst (analyzeAudio_fallback (stub_env 1) (Some [])) =
     [Call Upload, Done Upload, Call Submit, Done Submit,
      Sleep 3000, Call Poll, Done Poll, Sleep 3000, Call Poll, Done Poll,
      Call HuggingFace, Done HuggingFace]
     @ Call Perplexity # [Done Perplexity]
   \<and> Call HuggingFace \<in> set (fst (analyzeAudio_perplexity (stub_env 1) 3 (Some [])))
   \<and> Call HuggingFace \<in> set (fst (analyzeAudio_fallback (stub_env 1) (Some [])))
   \<and> (\<exists>r. snd (processWithAssemblyAI (stub_env 1) []) = Inr r)
   \<and> set (fst (processWithAssemblyAI (stub_env 1) []))
        \<subseteq> set [Call Upload, Call HuggingFace, Done Upload, Call Submit, Done Submit,
                Done HuggingFace, Sleep 3000, Call Poll, Done Poll, Sleep 3000, Call Poll, Done Poll]
   \<and> list_all (\<lambda>ev. \<not> of_transcription ev) [Done Perplexity]
   \<and> list_all (\<lambda>ev. \<not> of_transcription ev) [Done HuggingFace, Call Watson, Done Watson]
   \<and> Done HuggingFace
        \<in> set [Call Upload, Call HuggingFace, Done Upload, Call Submit, Done Submit,
               Done HuggingFace, Sleep 3000, Call Poll, Done Poll, Sleep 3000, Call Poll, Done Poll]"
proof -
  note t = stub_traces(3,4,5)
  have h: "Call HuggingFace \<in> set (fst (analyzeAudio_perplexity (stub_env 1) 3 (Some [])))"
    "Call HuggingFace \<in> set (fst (analyzeAudio_fallback (stub_env 1) (Some [])))"
    by (simp_all only: t) simp_all
  have c: "HuggingFace = HuggingFace \<or> HuggingFace = Watson" by simp
  from enrichment_after_transcription
         [where e = "stub_env 1" and sched = 3 and b = "[]" and c = HuggingFace
            and pre = "[Call Upload, Call HuggingFace, Done Upload, Call Submit, Done Submit,
                        Done HuggingFace, Sleep 3000, Call Poll, Done Poll,
                        Sleep 3000, Call Poll, Done Poll]"
            and post = "[Done Perplexity]"
            and pre' = "[Call Upload, Done Upload, Call Submit, Done Submit,
                         Sleep 3000, Call Poll, Done Poll, Sleep 3000, Call Poll, Done Poll]"
            and post' = "[Done HuggingFace, Call Watson, Done Watson]"
            and pre'' = "[Call Upload, Done Upload, Call Submit, Done Submit,
                          Sleep 3000, Call Poll, Done Poll, Sleep 3000, Call Poll, Done Poll,
                          Call HuggingFace, Done HuggingFace]"
            and post'' = "[Done Perplexity]"]
       t h c
  show ?thesis unfolding list_all_iff by blast
qed

section \<open>A failing upload\<close>

lemma upload_fails:
  assumes "upload_srv e b = Inl x"
  shows "processWithAssemblyAI e b = ([Call Upload, Done Upload], Inl x)"
  using assms by (simp add: processWithAssemblyAI_def)

lemma simulated_text_kept:
  "str_or (Some simulated_text) None = Some simulated_text"
  by (simp add: str_or_def simulated_text_def)

lemma fallback_wpm_simulated:
  "calculateWPM (str_or (result_text simulateAssemblyAIResults)
                        (transcript simulateAssemblyAIResults))
                (Some (num_or (audio_duration simulateAssemblyAIResults) 30)) = Inr 58"
  by (simp add: simulateAssemblyAIResults_def simulated_text_kept num_or_def simulated_wpm)

lemma assemble_fallback_simulated:
  "assemble_fallback simulateAssemblyAIResults h p =
     Inr (JObj [(''success'', JBool True),
                (''transcript'', JStr simulated_text),
                (''audioMetrics'',
                 JObj [(''wordsPerMinute'', JNum 58),
                       (''confidence'', JNum (85 / 100)),
                       (''audioDuration'', JNum 30),
                       (''sentiment'', JObj [(''text'', JStr ''neutral'')])]),
                (''emotions'', h),
                (''detailedAnalysis'', p)])"
  by (simp add: assemble_fallback_def fallback_wpm_simulated)
     (simp add: simulateAssemblyAIResults_def simulated_text_kept num_or_def
        opt_str_def json_or_def)

lemma fallback_on_failed_transcription:
  assumes "configured (ASSEMBLYAI_API_KEY e)" "snd (processWithAssemblyAI e b) = Inl x"
  shows "response_field ''success'' (snd (analyzeAudio_fallback e (Some b))) = Some (JBool True)"
    and "response_field ''transcript'' (snd (analyzeAudio_fallback e (Some b)))
           = Some (JStr simulated_text)"
  using assms(2)
  by (simp_all add: fallback_field [OF assms(1)] fallback_assemblyResult_def
      assemble_fallback_simulated)

text \<open>
  Claim C2, as amended. When the upload fails with an error \<open>x\<close> and the
  transcription key is set: the handler with the tone analysis and the handler with
  transcription only answer 500 with \<^verbatim>\<open>success: false\<close>, and their trace holds
  the upload request alone; the handler with the generative analysis answers 500
  with \<^verbatim>\<open>success: false\<close> and never issues the request of the generative
  analysis, while the emotion request, which it starts in parallel with the upload,
  is issued exactly when the Hugging Face token is set; the handler of
  \<^verbatim>\<open>api/audio-analysis.js\<close> puts the simulated transcription in the place of
  the failed one and answers \<^verbatim>\<open>success: true\<close> with the simulated transcript.
\<close>

theorem upload_failure_handling:
  assumes key: "configured (ASSEMBLYAI_API_KEY e)" and up: "upload_srv e b = Inl x"
  shows "analyzeAudio_watson e (Some b) = ([Call Upload, Done Upload], catch_500 x)
       \<and> analyzeAudio_sentiment e (Some b) = ([Call Upload, Done Upload], catch_sentiment x)
       \<and> field ''success'' (body (catch_500 x)) = Some (JBool False)
       \<and> field ''success'' (body (catch_sentiment x)) = Some (JBool False)
       \<and> snd (analyzeAudio_perplexity e sched (Some b)) = catch_500 x
       \<and> Call Perplexity \<notin> set (fst (analyzeAudio_perplexity e sched (Some b)))
       \<and> (Call HuggingFace \<in> set (fst (analyzeAudio_perplexity e sched (Some b)))
            \<longleftrightarrow> configured (HUGGING_FACE_TOKEN e))
       \<and> response_field ''success'' (snd (analyzeAudio_fallback e (Some b))) = Some (JBool True)
       \<and> response_field ''transcript'' (snd (analyzeAudio_fallback e (Some b)))
           = Some (JStr simulated_text)"
proof -
  note run = upload_fails [OF up]
  have a: "snd (processWithAssemblyAI e b) = Inl x" by (simp add: run)
  have w: "analyzeAudio_watson e (Some b) = ([Call Upload, Done Upload], catch_500 x)"
    by (simp add: analyzeAudio_watson_fail [OF key a] run)
  have s: "analyzeAudio_sentiment e (Some b) = ([Call Upload, Done Upload], catch_sentiment x)"
    using key up by (simp add: analyzeAudio_sentiment_def)
  have f: "field ''success'' (body (catch_500 x)) = Some (JBool False)"
    "field ''success'' (body (catch_sentiment x)) = Some (JBool False)"
    by (simp_all add: catch_500_def catch_sentiment_def error_body_def)
  have p: "analyzeAudio_perplexity e sched (Some b)
             = (interleave sched False [Call Upload, Done Upload] (fst (perplexity_hugging e b)),
                catch_500 x)"
    by (simp add: analyzeAudio_perplexity_fail [OF key a] run)
  have p1: "Call Perplexity \<notin> set (fst (analyzeAudio_perplexity e sched (Some b)))"
    by (simp add: p fst_perplexity_hugging interleave_def)
  have p2: "Call HuggingFace \<in> set (fst (analyzeAudio_perplexity e sched (Some b)))
            \<longleftrightarrow> configured (HUGGING_FACE_TOKEN e)"
    by (simp add: p fst_perplexity_hugging interleave_def)
  show ?thesis
    using w s f p p1 p2 fallback_on_failed_transcription [OF key a]
    by simp
qed

theorem upload_failure_handling_witness:
  "configured (ASSEMBLYAI_API_KEY net_down_env)
   \<and> upload_srv net_down_env [] = Inl network_error
   \<and> analyzeAudio_watson net_down_env (Some []) = ([Call Upload, Done Upload], catch_500 network_error)
   \<and> snd (analyzeAudio_perplexity net_down_env 5 (Some [])) = catch_500 network_error
   \<and> Call Perplexity \<notin> set (fst (analyzeAudio_perplexity net_down_env 5 (Some [])))"
proof -
  have key: "configured (ASSEMBLYAI_API_KEY net_down_env)"
    by (simp add: net_down_env_def stub_env_def configured_def)
  have up: "upload_srv net_down_env [] = Inl network_error"
    by (simp add: net_down_env_def)
  from upload_failure_handling [OF key up, of 5] key up
  show ?thesis by blast
qed

text \<open>
  The claim as it was stated fails on \<^verbatim>\<open>api/audio-analysis.js\<close>, which answers
  a failed upload with \<^verbatim>\<open>success: true\<close> after calling both enrichment
  providers, and on the handler with the generative analysis, which has issued the
  emotion request.
\<close>

theorem upload_failure_counterexample:
  "upload_srv net_down_env [] = Inl network_error
   \<and> response_field ''success'' (snd (analyzeAudio_fallback net_down_env (Some [])))
       = Some (JBool True)
   \<and> fst (analyzeAudio_fallback net_down_env (Some []))
       = [Call Upload, Done Upload, Call HuggingFace, Done HuggingFace,
          Call Perplexity, Done Perplexity]
   \<and> fst (analyzeAudio_perplexity net_down_env 0 (Some []))
       = [Call Upload, Call HuggingFace, Done HuggingFace, Done Upload]"
proof -
  have key: "configured (ASSEMBLYAI_API_KEY net_down_env)"
    "configured (HUGGING_FACE_TOKEN net_down_env)"
    "configured (PERPLEXITY_API_KEY net_down_env)"
    by (simp_all add: net_down_env_def stub_env_def configured_def)
  have up: "upload_srv net_down_env [] = Inl network_error"
    by (simp add: net_down_env_def)
  note run = upload_fails [OF up]
  have a: "snd (processWithAssemblyAI net_down_env []) = Inl network_error" by (simp add: run)
  have 1: "response_field ''success'' (snd (analyzeAudio_fallback net_down_env (Some [])))
       = Some (JBool True)"
    by (rule fallback_on_failed_transcription(1) [OF key(1) a])
  have fa: "fallback_assemblyResult net_down_env [] = simulateAssemblyAIResults"
    by (simp add: fallback_assemblyResult_def a)
  note wpm = fallback_wpm_simulated
  have 2: "fst (analyzeAudio_fallback net_down_env (Some []))
       = [Call Upload, Done Upload, Call HuggingFace, Done HuggingFace,
          Call Perplexity, Done Perplexity]"
    by (simp add: analyzeAudio_fallback_run [OF key(1)] run fa fst_fallback_hugging key
        fallback_perplexity_def processWithPerplexity_fallback_def wpm)
  have 3: "fst (analyzeAudio_perplexity net_down_env 0 (Some []))
       = [Call Upload, Call HuggingFace, Done HuggingFace, Done Upload]"
    by (simp add: analyzeAudio_perplexity_fail [OF key(1) a] run fst_perplexity_hugging key
        interleave_def)
  show ?thesis using up 1 2 3 by simp
qed

section \<open>The shape of a response\<close>

lemma catch_500_fields:
  "field ''success'' (body (catch_500 x)) = Some (JBool False)"
  "field ''error'' (body (catch_500 x)) = Some (JStr (str_else (Some (message x)) ''Internal server error''))"
  "field ''transcript'' (body (catch_500 x)) = None"
  "http_status (catch_500 x) = 500"
  by (simp_all add: catch_500_def)

lemma calculateWPM_no_text:
  "calculateWPM None d = Inr w \<Longrightarrow> d = None \<or> d = Some 0"
  by (auto simp: calculateWPM_def split: option.splits if_splits)

lemma calculateWPM_with_text:
  "\<exists>w. calculateWPM (Some t) d = Inr w"
  by (simp add: calculateWPM_def Let_def split: option.split)

lemma catch_500_error_shape: "error_shape (catch_500 x)"
  by (simp add: error_shape_def is_message_def catch_500_fields)

lemma assembled_shape:
  assumes "calculateWPM (result_text a) (audio_duration a) = Inr w"
  shows "transcript_shape a (case assemble_perplexity a h p of
                               Inl x \<Rightarrow> catch_500 x | Inr doc \<Rightarrow> Response 200 doc)"
    and "transcript_shape a (case assemble_watson a h p of
                               Inl x \<Rightarrow> catch_500 x | Inr doc \<Rightarrow> Response 200 doc)"
  using assms
  by (simp_all add: transcript_shape_def assemble_perplexity_def assemble_watson_def)

lemma not_assembled_shape:
  assumes "calculateWPM (result_text a) (audio_duration a) = Inl x"
  shows "error_shape (case assemble_perplexity a h p of
                               Inl x \<Rightarrow> catch_500 x | Inr doc \<Rightarrow> Response 200 doc)"
    and "error_shape (case assemble_watson a h p of
                               Inl x \<Rightarrow> catch_500 x | Inr doc \<Rightarrow> Response 200 doc)"
  using assms
  by (simp_all add: catch_500_error_shape assemble_perplexity_def assemble_watson_def)

lemma perplexity_response_shape:
  "error_shape (snd (analyzeAudio_perplexity e sched file))
   \<or> (\<exists>b r. file = Some b \<and> snd (processWithAssemblyAI e b) = Inr r
         \<and> transcript_shape r (snd (analyzeAudio_perplexity e sched file))
         \<and> (result_text r = None \<longrightarrow> audio_duration r = None \<or> audio_duration r = Some 0))"
proof (cases "file")
  case None
  then show ?thesis
    by (simp add: analyzeAudio_perplexity_def missing_input_def error_body_def error_shape_def is_message_def)
next
  case (Some b)
  show ?thesis
  proof (cases "configured (ASSEMBLYAI_API_KEY e)")
    case False
    then show ?thesis
      by (simp add: Some analyzeAudio_perplexity_def error_body_def error_shape_def is_message_def)
  next
    case key: True
    show ?thesis
    proof (cases "snd (processWithAssemblyAI e b)")
      case (Inl x)
      then show ?thesis
        by (simp add: Some analyzeAudio_perplexity_fail [OF key Inl] catch_500_error_shape)
    next
      case (Inr r)
      show ?thesis
      proof (cases "calculateWPM (result_text r) (audio_duration r)")
        case (Inl x)
        then show ?thesis
          by (simp add: Some analyzeAudio_perplexity_ok [OF key Inr] not_assembled_shape)
      next
        case w: (Inr w)
        have "result_text r = None \<longrightarrow> audio_duration r = None \<or> audio_duration r = Some 0"
        proof
          assume "result_text r = None"
          with w have "calculateWPM None (audio_duration r) = Inr w" by simp
          then show "audio_duration r = None \<or> audio_duration r = Some 0"
            by (rule calculateWPM_no_text)
        qed
        then show ?thesis
          using Inr
          by (simp add: Some analyzeAudio_perplexity_ok [OF key Inr] assembled_shape [OF w])
      qed
    qed
  qed
qed

lemma watson_response_shape:
  "error_shape (snd (analyzeAudio_watson e file))
   \<or> (\<exists>b r. file = Some b \<and> snd (processWithAssemblyAI e b) = Inr r
         \<and> transcript_shape r (snd (analyzeAudio_watson e file))
         \<and> (result_text r = None \<longrightarrow> audio_duration r = None \<or> audio_duration r = Some 0))"
proof (cases "file")
  case None
  then show ?thesis
    by (simp add: analyzeAudio_watson_def missing_input_def error_body_def error_shape_def is_message_def)
next
  case (Some b)
  show ?thesis
  proof (cases "configured (ASSEMBLYAI_API_KEY e)")
    case False
    then show ?thesis
      by (simp add: Some analyzeAudio_watson_def error_body_def error_shape_def is_message_def)
  next
    case key: True
    show ?thesis
    proof (cases "snd (processWithAssemblyAI e b)")
      case (Inl x)
      then show ?thesis
        by (simp add: Some analyzeAudio_watson_fail [OF key Inl] catch_500_error_shape)
    next
      case (Inr r)
      show ?thesis
      proof (cases "calculateWPM (result_text r) (audio_duration r)")
        case (Inl x)
        then show ?thesis
          by (simp add: Some analyzeAudio_watson_ok [OF key Inr] not_assembled_shape)
      next
        case w: (Inr w)
        have "result_text r = None \<longrightarrow> audio_duration r = None \<or> audio_duration r = Some 0"
        proof
          assume "result_text r = None"
          with w have "calculateWPM None (audio_duration r) = Inr w" by simp
          then show "audio_duration r = None \<or> audio_duration r = Some 0"
            by (rule calculateWPM_no_text)
        qed
        then show ?thesis
          using Inr
          by (simp add: Some analyzeAudio_watson_ok [OF key Inr] assembled_shape [OF w])
      qed
    qed
  qed
qed

lemma assemble_fallback_ok:
  assumes "assemble_fallback a h p = Inr doc"
  shows "field ''success'' doc = Some (JBool True)"
    and "\<exists>t. field ''transcript'' doc = Some (JStr t)"
proof -
  from assms obtain w where
    w: "calculateWPM (str_or (result_text a) (transcript a))
          (Some (num_or (audio_duration a) 30)) = Inr w"
    by (auto simp: assemble_fallback_def split: sum.splits)
  have "str_or (result_text a) (transcript a) \<noteq> None"
  proof
    assume "str_or (result_text a) (transcript a) = None"
    with w have "Some (num_or (audio_duration a) 30) = None
                 \<or> Some (num_or (audio_duration a) 30) = Some 0"
      using calculateWPM_no_text by metis
    then show False using num_or_nonzero [of 30 "audio_duration a"] by simp
  qed
  then obtain t where t: "str_or (result_text a) (transcript a) = Some t" by auto
  from assms w t show "field ''success'' doc = Some (JBool True)"
    by (auto simp: assemble_fallback_def)
  from assms w t show "\<exists>t. field ''transcript'' doc = Some (JStr t)"
    by (auto simp: assemble_fallback_def opt_str_def)
qed

lemma simulated_body_fields:
  "field ''success'' simulated_body = Some (JBool True)"
  "field ''transcript'' simulated_body = Some (JStr simulated_text)"
  by (simp_all add: simulated_body_def)

lemma fallback_response_shape:
  "response_field ''success'' (snd (analyzeAudio_fallback e (Some b))) = Some (JBool True)
   \<and> (\<exists>t. response_field ''transcript'' (snd (analyzeAudio_fallback e (Some b))) = Some (JStr t))
   \<and> (\<not> configured (ASSEMBLYAI_API_KEY e) \<or> (\<exists>x. snd (processWithAssemblyAI e b) = Inl x) \<longrightarrow>
        response_field ''transcript'' (snd (analyzeAudio_fallback e (Some b)))
          = Some (JStr simulated_text))"
proof (cases "configured (ASSEMBLYAI_API_KEY e)")
  case False
  then show ?thesis
    by (simp add: analyzeAudio_fallback_def respond_simulated_const response_field_def
        simulated_body_fields)
next
  case key: True
  let ?A = "assemble_fallback (fallback_assemblyResult e b) (snd (fallback_hugging e b))
              (snd (fallback_perplexity e (fallback_assemblyResult e b) (snd (fallback_hugging e b))))"
  have 1: "response_field ''success'' (snd (analyzeAudio_fallback e (Some b))) = Some (JBool True)"
    using assemble_fallback_ok(1) [of "fallback_assemblyResult e b" _ _]
    by (cases ?A) (simp_all add: fallback_field [OF key] simulated_body_fields)
  have 2: "\<exists>t. response_field ''transcript'' (snd (analyzeAudio_fallback e (Some b))) = Some (JStr t)"
    using assemble_fallback_ok(2) [of "fallback_assemblyResult e b" _ _]
    by (cases ?A) (simp_all add: fallback_field [OF key] simulated_body_fields)
  have 3: "response_field ''transcript'' (snd (analyzeAudio_fallback e (Some b)))
          = Some (JStr simulated_text)" if "\<exists>x. snd (processWithAssemblyAI e b) = Inl x"
    using that fallback_on_failed_transcription(2) [OF key] by blast
  show ?thesis using key 1 2 3 by blast
qed

lemma poll_loop_result_terminal:
  "snd (poll_loop e tid a res) = Inr (a', Some r) \<Longrightarrow> a' < maxAttempts \<Longrightarrow> terminal r"
proof (induction e tid a res rule: poll_loop.induct)
  case (1 e tid a res)
  show ?case
  proof (cases "a < maxAttempts")
    case False
    then show ?thesis using "1.prems" by (simp add: poll_loop_exhausted)
  next
    case lt: True
    show ?thesis
    proof (cases "status_srv e tid a")
      case (Inl x)
      then show ?thesis using "1.prems" lt by (simp add: poll_loop_throws)
    next
      case (Inr r0)
      show ?thesis
      proof (cases "terminal r0")
        case True
        then show ?thesis using "1.prems" lt Inr by (simp add: poll_loop_terminal)
      next
        case False
        then have nt: "\<not> (status r0 = Some ''completed'' \<or> status r0 = Some ''error'')"
          by (simp add: terminal_def)
        have "snd (poll_loop e tid (a + 1) (Some r0)) = Inr (a', Some r)"
          using "1.prems"(1) lt Inr False by (simp add: poll_loop_pending)
        from "1.IH" [OF lt Inr nt this "1.prems"(2)] show ?thesis .
      qed
    qed
  qed
qed

lemma after_loop_result:
  assumes "after_loop (a', res) = Inr r"
  shows "res = Some r \<and> status r \<noteq> Some ''error'' \<and> a' < maxAttempts"
  using assms
  by (auto simp: after_loop_def split: option.splits if_splits)

lemma success_is_completed:
  assumes "snd (processWithAssemblyAI e b) = Inr r"
  shows "status r = Some ''completed''"
proof (cases "upload_srv e b")
  case (Inl x)
  then show ?thesis using assms by (simp add: upload_fails)
next
  case up: (Inr url)
  show ?thesis
  proof (cases "submit_srv e url")
    case (Inl x)
    then show ?thesis using assms up by (simp add: processWithAssemblyAI_def)
  next
    case (Inr tid)
    note run = processWithAssemblyAI_polling [OF up Inr]
    show ?thesis
    proof (cases "snd (poll_loop e tid 0 None)")
      case (Inl x)
      then show ?thesis using assms by (simp add: run)
    next
      case st: (Inr st)
      obtain a' res where p: "st = (a', res)" by (cases st)
      have al: "after_loop (a', res) = Inr r" using assms st p by (simp add: run)
      from after_loop_result [OF al]
      have r: "res = Some r" "status r \<noteq> Some ''error''" "a' < maxAttempts" by simp_all
      have "terminal r"
        using poll_loop_result_terminal [of e tid 0 None a' r] st p r(1,3) by simp
      then show ?thesis using r(2) by (simp add: terminal_def)
    qed
  qed
qed

lemma text_shape:
  assumes "transcript_shape r R" "result_text r = Some t"
  shows "http_status R = 200 \<and> field ''success'' (body R) = Some (JBool True)
         \<and> field ''transcript'' (body R) = Some (JStr t)"
  using assms by (simp add: transcript_shape_def opt_str_def)

lemma perplexity_text_shape:
  assumes c: "carries_text (snd (processWithAssemblyAI e b))"
    and f: "file = None \<or> file = Some b"
  shows "error_shape (snd (analyzeAudio_perplexity e sched file))
     \<or> (\<exists>r t. file = Some b \<and> snd (processWithAssemblyAI e b) = Inr r
           \<and> status r = Some ''completed'' \<and> result_text r = Some t
           \<and> http_status (snd (analyzeAudio_perplexity e sched file)) = 200
           \<and> field ''success'' (body (snd (analyzeAudio_perplexity e sched file))) = Some (JBool True)
           \<and> field ''transcript'' (body (snd (analyzeAudio_perplexity e sched file))) = Some (JStr t))"
proof (cases "error_shape (snd (analyzeAudio_perplexity e sched file))")
  case True
  then show ?thesis by simp
next
  case False
  with perplexity_response_shape [of e sched "file"]
  obtain b' r where br: "file = Some b'" "snd (processWithAssemblyAI e b') = Inr r"
    "transcript_shape r (snd (analyzeAudio_perplexity e sched file))"
    by blast
  from br(1) f have b: "b' = b" by simp
  from c br(2) b obtain t where t: "result_text r = Some t"
    by (auto simp: carries_text_def)
  from success_is_completed [OF br(2)] have s: "status r = Some ''completed''" .
  from text_shape [OF br(3) t] br(1,2) b t s show ?thesis by blast
qed

lemma watson_text_shape:
  assumes c: "carries_text (snd (processWithAssemblyAI e b))"
    and f: "file = None \<or> file = Some b"
  shows "error_shape (snd (analyzeAudio_watson e file))
     \<or> (\<exists>r t. file = Some b \<and> snd (processWithAssemblyAI e b) = Inr r
           \<and> status r = Some ''completed'' \<and> result_text r = Some t
           \<and> http_status (snd (analyzeAudio_watson e file)) = 200
           \<and> field ''success'' (body (snd (analyzeAudio_watson e file))) = Some (JBool True)
           \<and> field ''transcript'' (body (snd (analyzeAudio_watson e file))) = Some (JStr t))"
proof (cases "error_shape (snd (analyzeAudio_watson e file))")
  case True
  then show ?thesis by simp
next
  case False
  with watson_response_shape [of e "file"]
  obtain b' r where br: "file = Some b'" "snd (processWithAssemblyAI e b') = Inr r"
    "transcript_shape r (snd (analyzeAudio_watson e file))"
    by blast
  from br(1) f have b: "b' = b" by simp
  from c br(2) b obtain t where t: "result_text r = Some t"
    by (auto simp: carries_text_def)
  from success_is_completed [OF br(2)] have s: "status r = Some ''completed''" .
  from text_shape [OF br(3) t] br(1,2) b t s show ?thesis by blast
qed

text \<open>
  Claim C1, as amended. Let the transcription fail or return a result that carries a
  text. Then in the handler with the generative analysis and in the handler with the
  tone analysis every response is an error object, or it has status 200 and
  \<^verbatim>\<open>success: true\<close>, the transcription has returned a result with the status
  \<^verbatim>\<open>completed\<close>, and the transcript is the text of that result, a string. In
  \<^verbatim>\<open>api/audio-analysis.js\<close> every request with an audio file is answered with
  \<^verbatim>\<open>success: true\<close> and a string as transcript, and this string is the
  simulated transcript when the key is missing or the transcription has failed.
\<close>

theorem analysis_response_invariant:
  "(carries_text (snd (processWithAssemblyAI e b)) \<and> (file = None \<or> file = Some b) \<longrightarrow>
      (error_shape (snd (analyzeAudio_perplexity e sched file))
       \<or> (\<exists>r t. file = Some b \<and> snd (processWithAssemblyAI e b) = Inr r
             \<and> status r = Some ''completed'' \<and> result_text r = Some t
             \<and> http_status (snd (analyzeAudio_perplexity e sched file)) = 200
             \<and> field ''success'' (body (snd (analyzeAudio_perplexity e sched file))) = Some (JBool True)
             \<and> field ''transcript'' (body (snd (analyzeAudio_perplexity e sched file))) = Some (JStr t)))
      \<and> (error_shape (snd (analyzeAudio_watson e file))
       \<or> (\<exists>r t. file = Some b \<and> snd (processWithAssemblyAI e b) = Inr r
             \<and> status r = Some ''completed'' \<and> result_text r = Some t
             \<and> http_status (snd (analyzeAudio_watson e file)) = 200
             \<and> field ''success'' (body (snd (analyzeAudio_watson e file))) = Some (JBool True)
             \<and> field ''transcript'' (body (snd (analyzeAudio_watson e file))) = Some (JStr t))))
   \<and> (file = Some b \<longrightarrow>
        response_field ''success'' (snd (analyzeAudio_fallback e file)) = Some (JBool True)
        \<and> (\<exists>t. response_field ''transcript'' (snd (analyzeAudio_fallback e file)) = Some (JStr t))
        \<and> (\<not> configured (ASSEMBLYAI_API_KEY e) \<or> (\<exists>x. snd (processWithAssemblyAI e b) = Inl x) \<longrightarrow>
             response_field ''transcript'' (snd (analyzeAudio_fallback e file))
               = Some (JStr simulated_text)))"
  using perplexity_text_shape [of e b "file" sched] watson_text_shape [of e b "file"]
    fallback_response_shape [of e b]
  by blast

text \<open>
  The claim as it was stated fails on \<^verbatim>\<open>api/audio-analysis.js\<close>: a failed
  upload is answered with \<^verbatim>\<open>success: true\<close> and the simulated transcript.
\<close>

theorem analysis_response_invariant_counterexample:
  "snd (processWithAssemblyAI net_down_env []) = Inl network_error
   \<and> response_field ''success'' (snd (analyzeAudio_fallback net_down_env (Some [])))
       = Some (JBool True)
   \<and> response_field ''transcript'' (snd (analyzeAudio_fallback net_down_env (Some [])))
       = Some (JStr simulated_text)"
proof -
  have key: "configured (ASSEMBLYAI_API_KEY net_down_env)"
    by (simp add: net_down_env_def stub_env_def configured_def)
  have up: "upload_srv net_down_env [] = Inl network_error"
    by (simp add: net_down_env_def)
  have a: "snd (processWithAssemblyAI net_down_env []) = Inl network_error"
    by (simp add: upload_fails [OF up])
  show ?thesis
    using a fallback_on_failed_transcription [OF key a] by simp
qed

section \<open>Failures of the enrichment providers\<close>

lemma assemble_with_text:
  assumes "result_text a = Some t"
  shows "\<exists>doc. assemble_perplexity a h p = Inr doc
           \<and> field ''success'' doc = Some (JBool True)
           \<and> field ''emotions'' doc = Some h \<and> field ''detailedAnalysis'' doc = Some p"
    and "\<exists>doc. assemble_watson a h p = Inr doc
           \<and> field ''success'' doc = Some (JBool True)
           \<and> field ''emotions'' doc = Some h \<and> field ''tones'' doc = Some p"
proof -
  obtain w where w: "calculateWPM (result_text a) (audio_duration a) = Inr w"
    using calculateWPM_with_text [of t "audio_duration a"] assms by auto
  show "\<exists>doc. assemble_perplexity a h p = Inr doc
           \<and> field ''success'' doc = Some (JBool True)
           \<and> field ''emotions'' doc = Some h \<and> field ''detailedAnalysis'' doc = Some p"
    by (simp add: assemble_perplexity_def w)
  show "\<exists>doc. assemble_watson a h p = Inr doc
           \<and> field ''success'' doc = Some (JBool True)
           \<and> field ''emotions'' doc = Some h \<and> field ''tones'' doc = Some p"
    by (simp add: assemble_watson_def w)
qed

lemma assemble_fallback_with_text:
  assumes "result_text a = Some t" "t \<noteq> []"
  shows "\<exists>doc. assemble_fallback a h p = Inr doc
           \<and> field ''success'' doc = Some (JBool True)
           \<and> field ''emotions'' doc = Some h \<and> field ''detailedAnalysis'' doc = Some p"
proof -
  have s: "str_or (result_text a) (transcript a) = Some t"
    using assms by (simp add: str_or_def)
  obtain w where w: "calculateWPM (str_or (result_text a) (transcript a))
                       (Some (num_or (audio_duration a) 30)) = Inr w"
    using calculateWPM_with_text [of t] s by auto
  show ?thesis by (simp add: assemble_fallback_def w)
qed

lemma perplexity_report_with_text:
  assumes "result_text a = Some t"
  shows "perplexity_report e a h =
           (if configured (PERPLEXITY_API_KEY e)
            then ([Call Perplexity, Done Perplexity],
                  (case pplx_srv e a h of Inl x \<Rightarrow> error_slot x | Inr v \<Rightarrow> v))
            else ([], JNull))"
proof -
  obtain w where w: "calculateWPM (result_text a) (audio_duration a) = Inr w"
    using calculateWPM_with_text [of t "audio_duration a"] assms by auto
  show ?thesis
    by (simp add: perplexity_report_def processWithPerplexity_perplexity_def w)
qed

lemma fallback_perplexity_with_text:
  assumes "result_text a = Some t" "t \<noteq> []"
  shows "fallback_perplexity e a h =
           (if configured (PERPLEXITY_API_KEY e)
            then ([Call Perplexity, Done Perplexity],
                  (case pplx_srv e a h of
                     Inl x \<Rightarrow> simulateTruthAnalysisReport a h | Inr v \<Rightarrow> v))
            else ([], simulateTruthAnalysisReport a h))"
proof -
  have s: "str_or (result_text a) (transcript a) = Some t"
    using assms by (simp add: str_or_def)
  obtain w where w: "calculateWPM (str_or (result_text a) (transcript a))
                       (Some (num_or (audio_duration a) 30)) = Inr w"
    using calculateWPM_with_text [of t] s by auto
  show ?thesis
    by (simp add: fallback_perplexity_def processWithPerplexity_fallback_def w)
qed

lemma no_enrichment_in_transcription:
  "Call HuggingFace \<notin> set (fst (processWithAssemblyAI e b))"
  "Call Perplexity \<notin> set (fst (processWithAssemblyAI e b))"
  "Call Watson \<notin> set (fst (processWithAssemblyAI e b))"
  using processWithAssemblyAI_events [of e b] by fastforce+

lemma perplexity_absorbs:
  assumes key: "configured (ASSEMBLYAI_API_KEY e)"
    and a: "snd (processWithAssemblyAI e b) = Inr r"
    and t: "result_text r = Some t"
  shows "http_status (snd (analyzeAudio_perplexity e sched (Some b))) = 200"
    and "field ''success'' (body (snd (analyzeAudio_perplexity e sched (Some b)))) = Some (JBool True)"
    and "field ''emotions'' (body (snd (analyzeAudio_perplexity e sched (Some b))))
          = Some (if configured (HUGGING_FACE_TOKEN e)
                  then (case hf_audio_srv e b of Inl x \<Rightarrow> error_slot x | Inr v \<Rightarrow> v)
                  else error_slot (Exn ''Hugging Face not configured'' None))"
    and "field ''emotions'' (body (snd (analyzeAudio_perplexity e sched (Some b)))) = Some h \<longrightarrow>
         field ''detailedAnalysis'' (body (snd (analyzeAudio_perplexity e sched (Some b))))
          = Some (if configured (PERPLEXITY_API_KEY e)
                  then (case pplx_srv e r h of Inl x \<Rightarrow> error_slot x | Inr v \<Rightarrow> v)
                  else JNull)"
    and "\<not> configured (HUGGING_FACE_TOKEN e) \<longrightarrow>
         Call HuggingFace \<notin> set (fst (analyzeAudio_perplexity e sched (Some b)))"
    and "\<not> configured (PERPLEXITY_API_KEY e) \<longrightarrow>
         Call Perplexity \<notin> set (fst (analyzeAudio_perplexity e sched (Some b)))"
proof -
  let ?H = "snd (perplexity_hugging e b)"
  let ?P = "snd (perplexity_report e r ?H)"
  note run = analyzeAudio_perplexity_ok [OF key a, of sched]
  from assemble_with_text(1) [OF t, of ?H ?P]
  obtain doc where doc: "assemble_perplexity r ?H ?P = Inr doc"
    "field ''success'' doc = Some (JBool True)"
    "field ''emotions'' doc = Some ?H" "field ''detailedAnalysis'' doc = Some ?P"
    by blast
  have res: "snd (analyzeAudio_perplexity e sched (Some b)) = Response 200 doc"
    by (simp add: run doc(1))
  have H: "?H = (if configured (HUGGING_FACE_TOKEN e)
                  then (case hf_audio_srv e b of Inl x \<Rightarrow> error_slot x | Inr v \<Rightarrow> v)
                  else error_slot (Exn ''Hugging Face not configured'' None))"
    by (simp add: perplexity_hugging_def error_slot_def)
  have P: "?P = (if configured (PERPLEXITY_API_KEY e)
                  then (case pplx_srv e r ?H of Inl x \<Rightarrow> error_slot x | Inr v \<Rightarrow> v)
                  else JNull)"
    by (simp add: perplexity_report_with_text [OF t])
  show "http_status (snd (analyzeAudio_perplexity e sched (Some b))) = 200"
    by (simp add: res)
  show "field ''success'' (body (snd (analyzeAudio_perplexity e sched (Some b)))) = Some (JBool True)"
    by (simp add: res doc(2))
  show "field ''emotions'' (body (snd (analyzeAudio_perplexity e sched (Some b))))
          = Some (if configured (HUGGING_FACE_TOKEN e)
                  then (case hf_audio_srv e b of Inl x \<Rightarrow> error_slot x | Inr v \<Rightarrow> v)
                  else error_slot (Exn ''Hugging Face not configured'' None))"
    using H by (simp add: res doc(3))
  show "field ''emotions'' (body (snd (analyzeAudio_perplexity e sched (Some b)))) = Some h \<longrightarrow>
         field ''detailedAnalysis'' (body (snd (analyzeAudio_perplexity e sched (Some b))))
          = Some (if configured (PERPLEXITY_API_KEY e)
                  then (case pplx_srv e r h of Inl x \<Rightarrow> error_slot x | Inr v \<Rightarrow> v)
                  else JNull)"
    using P by (auto simp: res doc(3,4))
  have tr: "fst (analyzeAudio_perplexity e sched (Some b))
      = interleave sched True (fst (processWithAssemblyAI e b)) (fst (perplexity_hugging e b))
        @ fst (perplexity_report e r ?H)"
    by (simp add: run)
  show "\<not> configured (HUGGING_FACE_TOKEN e) \<longrightarrow>
         Call HuggingFace \<notin> set (fst (analyzeAudio_perplexity e sched (Some b)))"
    using no_enrichment_in_transcription(1) [of e b]
    by (auto simp: tr fst_perplexity_hugging interleave_def perplexity_report_with_text [OF t])
  show "\<not> configured (PERPLEXITY_API_KEY e) \<longrightarrow>
         Call Perplexity \<notin> set (fst (analyzeAudio_perplexity e sched (Some b)))"
  proof
    assume n: "\<not> configured (PERPLEXITY_API_KEY e)"
    have "Call Perplexity \<notin> set (interleave sched True (fst (processWithAssemblyAI e b))
                                    (fst (perplexity_hugging e b)))"
      using set_interleave_upper [of sched True "fst (processWithAssemblyAI e b)"
                                     "fst (perplexity_hugging e b)"]
        no_enrichment_in_transcription(2) [of e b]
      by (auto simp: fst_perplexity_hugging split: if_splits)
    then show "Call Perplexity \<notin> set (fst (analyzeAudio_perplexity e sched (Some b)))"
      using n by (simp add: tr perplexity_report_with_text [OF t])
  qed
qed


lemma watson_absorbs:
  assumes key: "configured (ASSEMBLYAI_API_KEY e)"
    and a: "snd (processWithAssemblyAI e b) = Inr r"
    and t: "result_text r = Some t"
  shows "http_status (snd (analyzeAudio_watson e (Some b))) = 200"
    and "field ''success'' (body (snd (analyzeAudio_watson e (Some b)))) = Some (JBool True)"
    and "field ''emotions'' (body (snd (analyzeAudio_watson e (Some b))))
          = Some (if configured (HUGGING_FACE_TOKEN e)
                  then (case hf_text_srv e (Some t) of Inl x \<Rightarrow> error_slot x | Inr v \<Rightarrow> v)
                  else JNull)"
    and "field ''tones'' (body (snd (analyzeAudio_watson e (Some b))))
          = Some (if configured (IBM_WATSON_API_KEY e) \<and> configured (IBM_WATSON_URL e)
                  then (case watson_srv e (Some t) of Inl x \<Rightarrow> error_slot x | Inr v \<Rightarrow> v)
                  else JNull)"
    and "\<not> configured (HUGGING_FACE_TOKEN e) \<longrightarrow>
         Call HuggingFace \<notin> set (fst (analyzeAudio_watson e (Some b)))"
    and "\<not> (configured (IBM_WATSON_API_KEY e) \<and> configured (IBM_WATSON_URL e)) \<longrightarrow>
         Call Watson \<notin> set (fst (analyzeAudio_watson e (Some b)))"
proof -
  let ?H = "snd (watson_hugging e r)"
  let ?W = "snd (watson_tones e r)"
  note run = analyzeAudio_watson_ok [OF key a]
  from assemble_with_text(2) [OF t, of ?H ?W]
  obtain doc where doc: "assemble_watson r ?H ?W = Inr doc"
    "field ''success'' doc = Some (JBool True)"
    "field ''emotions'' doc = Some ?H" "field ''tones'' doc = Some ?W"
    by blast
  have res: "snd (analyzeAudio_watson e (Some b)) = Response 200 doc"
    by (simp add: run doc(1))
  show "http_status (snd (analyzeAudio_watson e (Some b))) = 200"
    by (simp add: res)
  show "field ''success'' (body (snd (analyzeAudio_watson e (Some b)))) = Some (JBool True)"
    by (simp add: res doc(2))
  show "field ''emotions'' (body (snd (analyzeAudio_watson e (Some b))))
          = Some (if configured (HUGGING_FACE_TOKEN e)
                  then (case hf_text_srv e (Some t) of Inl x \<Rightarrow> error_slot x | Inr v \<Rightarrow> v)
                  else JNull)"
    by (simp add: res doc(3) watson_hugging_def t)
  show "field ''tones'' (body (snd (analyzeAudio_watson e (Some b))))
          = Some (if configured (IBM_WATSON_API_KEY e) \<and> configured (IBM_WATSON_URL e)
                  then (case watson_srv e (Some t) of Inl x \<Rightarrow> error_slot x | Inr v \<Rightarrow> v)
                  else JNull)"
    by (simp add: res doc(4) watson_tones_def t)
  have tr: "fst (analyzeAudio_watson e (Some b))
      = fst (processWithAssemblyAI e b) @ fst (watson_hugging e r) @ fst (watson_tones e r)"
    by (simp add: run)
  show "\<not> configured (HUGGING_FACE_TOKEN e) \<longrightarrow>
         Call HuggingFace \<notin> set (fst (analyzeAudio_watson e (Some b)))"
    using no_enrichment_in_transcription(1) [of e b]
    by (simp add: tr fst_watson_hugging fst_watson_tones)
  show "\<not> (configured (IBM_WATSON_API_KEY e) \<and> configured (IBM_WATSON_URL e)) \<longrightarrow>
         Call Watson \<notin> set (fst (analyzeAudio_watson e (Some b)))"
    using no_enrichment_in_transcription(3) [of e b]
    by (simp add: tr fst_watson_hugging fst_watson_tones)
qed

lemma fallback_absorbs:
  assumes key: "configured (ASSEMBLYAI_API_KEY e)"
    and a: "snd (processWithAssemblyAI e b) = Inr r"
    and t: "result_text r = Some t" "t \<noteq> []"
  shows "response_field ''success'' (snd (analyzeAudio_fallback e (Some b))) = Some (JBool True)"
    and "response_field ''emotions'' (snd (analyzeAudio_fallback e (Some b)))
          = Some (if configured (HUGGING_FACE_TOKEN e)
                  then (case hf_audio_srv e b of
                          Inl x \<Rightarrow> simulateHuggingFaceResults | Inr v \<Rightarrow> v)
                  else simulateHuggingFaceResults)"
    and "response_field ''emotions'' (snd (analyzeAudio_fallback e (Some b))) = Some h \<longrightarrow>
         response_field ''detailedAnalysis'' (snd (analyzeAudio_fallback e (Some b)))
          = Some (if configured (PERPLEXITY_API_KEY e)
                  then (case pplx_srv e r h of
                          Inl x \<Rightarrow> simulateTruthAnalysisReport r h | Inr v \<Rightarrow> v)
                  else simulateTruthAnalysisReport r h)"
    and "\<not> configured (HUGGING_FACE_TOKEN e) \<longrightarrow>
         Call HuggingFace \<notin> set (fst (analyzeAudio_fallback e (Some b)))"
    and "\<not> configured (PERPLEXITY_API_KEY e) \<longrightarrow>
         Call Perplexity \<notin> set (fst (analyzeAudio_fallback e (Some b)))"
proof -
  have A: "fallback_assemblyResult e b = r" by (simp add: fallback_assemblyResult_def a)
  let ?H = "snd (fallback_hugging e b)"
  let ?P = "snd (fallback_perplexity e r ?H)"
  from assemble_fallback_with_text [OF t, of ?H ?P]
  obtain doc where doc: "assemble_fallback r ?H ?P = Inr doc"
    "field ''success'' doc = Some (JBool True)"
    "field ''emotions'' doc = Some ?H" "field ''detailedAnalysis'' doc = Some ?P"
    by blast
  have fld: "response_field k (snd (analyzeAudio_fallback e (Some b))) = field k doc" for k
    by (simp add: fallback_field [OF key] A doc(1))
  have H: "?H = (if configured (HUGGING_FACE_TOKEN e)
                  then (case hf_audio_srv e b of
                          Inl x \<Rightarrow> simulateHuggingFaceResults | Inr v \<Rightarrow> v)
                  else simulateHuggingFaceResults)"
    by (simp add: fallback_hugging_def)
  have P: "?P = (if configured (PERPLEXITY_API_KEY e)
                  then (case pplx_srv e r ?H of
                          Inl x \<Rightarrow> simulateTruthAnalysisReport r ?H | Inr v \<Rightarrow> v)
                  else simulateTruthAnalysisReport r ?H)"
    by (simp add: fallback_perplexity_with_text [OF t])
  show "response_field ''success'' (snd (analyzeAudio_fallback e (Some b))) = Some (JBool True)"
    by (simp add: fld doc(2))
  show "response_field ''emotions'' (snd (analyzeAudio_fallback e (Some b)))
          = Some (if configured (HUGGING_FACE_TOKEN e)
                  then (case hf_audio_srv e b of
                          Inl x \<Rightarrow> simulateHuggingFaceResults | Inr v \<Rightarrow> v)
                  else simulateHuggingFaceResults)"
    using H by (simp add: fld doc(3))
  show "response_field ''emotions'' (snd (analyzeAudio_fallback e (Some b))) = Some h \<longrightarrow>
         response_field ''detailedAnalysis'' (snd (analyzeAudio_fallback e (Some b)))
          = Some (if configured (PERPLEXITY_API_KEY e)
                  then (case pplx_srv e r h of
                          Inl x \<Rightarrow> simulateTruthAnalysisReport r h | Inr v \<Rightarrow> v)
                  else simulateTruthAnalysisReport r h)"
    using P by (auto simp: fld doc(3,4))
  have tr: "fst (analyzeAudio_fallback e (Some b))
      = fst (processWithAssemblyAI e b) @ fst (fallback_hugging e b)
        @ fst (fallback_perplexity e r ?H)"
    by (simp add: analyzeAudio_fallback_run [OF key] A)
  show "\<not> configured (HUGGING_FACE_TOKEN e) \<longrightarrow>
         Call HuggingFace \<notin> set (fst (analyzeAudio_fallback e (Some b)))"
    using no_enrichment_in_transcription(1) [of e b]
    by (simp add: tr fst_fallback_hugging fallback_perplexity_with_text [OF t])
  show "\<not> configured (PERPLEXITY_API_KEY e) \<longrightarrow>
         Call Perplexity \<notin> set (fst (analyzeAudio_fallback e (Some b)))"
    using no_enrichment_in_transcription(2) [of e b]
    by (simp add: tr fst_fallback_hugging fallback_perplexity_with_text [OF t])
qed

text \<open>
  Claim C5, as amended. Let the transcription return a result with a non-empty text.
  Then no missing credential and no remote failure of an enrichment provider changes
  the status 200 and \<^verbatim>\<open>success: true\<close> of the response, and a provider without
  credentials is sent no request. What stands in the provider's slot depends on the
  handler. With the generative analysis: the emotion slot holds the provider's data,
  or \<^verbatim>\<open>{error: message}\<close> for a remote failure and for a missing token; the
  report slot holds the provider's data, or \<^verbatim>\<open>{error: message}\<close> for a remote
  failure, or \<^verbatim>\<open>null\<close> for a missing key. With the tone analysis: each slot
  holds the data, or \<^verbatim>\<open>{error: message}\<close> for a remote failure, or
  \<^verbatim>\<open>null\<close> for missing credentials. In \<^verbatim>\<open>api/audio-analysis.js\<close>: each
  slot holds the data, or the simulated value for either failure.
\<close>

theorem enrichment_failures_absorbed:
  assumes key: "configured (ASSEMBLYAI_API_KEY e)"
    and a: "snd (processWithAssemblyAI e b) = Inr r"
    and t: "result_text r = Some t" "t \<noteq> []"
  shows
   "http_status (snd (analyzeAudio_perplexity e sched (Some b))) = 200
    \<and> field ''success'' (body (snd (analyzeAudio_perplexity e sched (Some b)))) = Some (JBool True)
    \<and> field ''emotions'' (body (snd (analyzeAudio_perplexity e sched (Some b))))
          = Some (if configured (HUGGING_FACE_TOKEN e)
                  then (case hf_audio_srv e b of Inl x \<Rightarrow> error_slot x | Inr v \<Rightarrow> v)
                  else error_slot (Exn ''Hugging Face not configured'' None))
    \<and> (field ''emotions'' (body (snd (analyzeAudio_perplexity e sched (Some b)))) = Some h \<longrightarrow>
         field ''detailedAnalysis'' (body (snd (analyzeAudio_perplexity e sched (Some b))))
          = Some (if configured (PERPLEXITY_API_KEY e)
                  then (case pplx_srv e r h of Inl x \<Rightarrow> error_slot x | Inr v \<Rightarrow> v)
                  else JNull))
    \<and> (\<not> configured (HUGGING_FACE_TOKEN e) \<longrightarrow>
         Call HuggingFace \<notin> set (fst (analyzeAudio_perplexity e sched (Some b))))
    \<and> (\<not> configured (PERPLEXITY_API_KEY e) \<longrightarrow>
         Call Perplexity \<notin> set (fst (analyzeAudio_perplexity e sched (Some b))))
    \<and> http_status (snd (analyzeAudio_watson e (Some b))) = 200
    \<and> field ''success'' (body (snd (analyzeAudio_watson e (Some b)))) = Some (JBool True)
    \<and> field ''emotions'' (body (snd (analyzeAudio_watson e (Some b))))
          = Some (if configured (HUGGING_FACE_TOKEN e)
                  then (case hf_text_srv e (Some t) of Inl x \<Rightarrow> error_slot x | Inr v \<Rightarrow> v)
                  else JNull)
    \<and> field ''tones'' (body (snd (analyzeAudio_watson e (Some b))))
          = Some (if configured (IBM_WATSON_API_KEY e) \<and> configured (IBM_WATSON_URL e)
                  then (case watson_srv e (Some t) of Inl x \<Rightarrow> error_slot x | Inr v \<Rightarrow> v)
                  else JNull)
    \<and> (\<not> configured (HUGGING_FACE_TOKEN e) \<longrightarrow>
         Call HuggingFace \<notin> set (fst (analyzeAudio_watson e (Some b))))
    \<and> (\<not> (configured (IBM_WATSON_API_KEY e) \<and> configured (IBM_WATSON_URL e)) \<longrightarrow>
         Call Watson \<notin> set (fst (analyzeAudio_watson e (Some b))))
    \<and> response_field ''success'' (snd (analyzeAudio_fallback e (Some b))) = Some (JBool True)
    \<and> response_field ''emotions'' (snd (analyzeAudio_fallback e (Some b)))
          = Some (if configured (HUGGING_FACE_TOKEN e)
                  then (case hf_audio_srv e b of
                          Inl x \<Rightarrow> simulateHuggingFaceResults | Inr v \<Rightarrow> v)
                  else simulateHuggingFaceResults)
    \<and> (response_field ''emotions'' (snd (analyzeAudio_fallback e (Some b))) = Some h' \<longrightarrow>
         response_field ''detailedAnalysis'' (snd (analyzeAudio_fallback e (Some b)))
          = Some (if configured (PERPLEXITY_API_KEY e)
                  then (case pplx_srv e r h' of
                          Inl x \<Rightarrow> simulateTruthAnalysisReport r h' | Inr v \<Rightarrow> v)
                  else simulateTruthAnalysisReport r h'))
    \<and> (\<not> configured (HUGGING_FACE_TOKEN e) \<longrightarrow>
         Call HuggingFace \<notin> set (fst (analyzeAudio_fallback e (Some b))))
    \<and> (\<not> configured (PERPLEXITY_API_KEY e) \<longrightarrow>
         Call Perplexity \<notin> set (fst (analyzeAudio_fallback e (Some b))))"
  by (intro conjI perplexity_absorbs [OF key a t(1)] watson_absorbs [OF key a t(1)]
      fallback_absorbs [OF key a t])

lemma unconfigured_env_facts:
  "configured (ASSEMBLYAI_API_KEY unconfigured_env)"
  "\<not> configured (HUGGING_FACE_TOKEN unconfigured_env)"
  "\<not> configured (PERPLEXITY_API_KEY unconfigured_env)"
  "snd (processWithAssemblyAI unconfigured_env []) = Inr completed_result"
  "result_text completed_result = Some ''one two three four five six''"
  by (simp_all add: unconfigured_env_def stub_env_def configured_def completed_result_def
      processWithAssemblyAI_def poll_loop.simps maxAttempts_def after_loop_def
      pending_result_def)

theorem enrichment_failures_absorbed_witness:
  "configured (ASSEMBLYAI_API_KEY unconfigured_env)
   \<and> snd (processWithAssemblyAI unconfigured_env []) = Inr completed_result
   \<and> result_text completed_result = Some ''one two three four five six''
   \<and> ''one two three four five six'' \<noteq> []
   \<and> \<not> configured (HUGGING_FACE_TOKEN unconfigured_env)
   \<and> \<not> configured (PERPLEXITY_API_KEY unconfigured_env)
   \<and> http_status (snd (analyzeAudio_perplexity unconfigured_env 2 (Some []))) = 200
   \<and> field ''emotions'' (body (snd (analyzeAudio_perplexity unconfigured_env 2 (Some []))))
       = Some (error_slot (Exn ''Hugging Face not configured'' None))
   \<and> field ''detailedAnalysis'' (body (snd (analyzeAudio_perplexity unconfigured_env 2 (Some []))))
       = Some JNull
   \<and> response_field ''emotions'' (snd (analyzeAudio_fallback unconfigured_env (Some [])))
       = Some simulateHuggingFaceResults
   \<and> Call HuggingFace \<notin> set (fst (analyzeAudio_perplexity unconfigured_env 2 (Some [])))
   \<and> Call Perplexity \<notin> set (fst (analyzeAudio_perplexity unconfigured_env 2 (Some [])))
   \<and> Call HuggingFace \<notin> set (fst (analyzeAudio_fallback unconfigured_env (Some [])))"
proof -
  note f = unconfigured_env_facts
  have n: "''one two three four five six'' \<noteq> []" by simp
  from enrichment_failures_absorbed [OF f(1) f(4) f(5) n, of 2 "error_slot (Exn ''Hugging Face not configured'' None)"
            simulateHuggingFaceResults] f n
  show ?thesis by simp
qed

text \<open>
  The claim as it was stated fails where no \<^verbatim>\<open>{error: message}\<close> is
  substituted: without the key of the generative analysis its slot is
  \<^verbatim>\<open>null\<close>, and \<^verbatim>\<open>api/audio-analysis.js\<close> fills the emotion slot with the
  simulated list, which has no \<^verbatim>\<open>error\<close> field.
\<close>

theorem enrichment_failures_absorbed_counterexample:
  "\<not> configured (PERPLEXITY_API_KEY unconfigured_env)
   \<and> \<not> configured (HUGGING_FACE_TOKEN unconfigured_env)
   \<and> field ''detailedAnalysis'' (body (snd (analyzeAudio_perplexity unconfigured_env 0 (Some []))))
       = Some JNull
   \<and> response_field ''emotions'' (snd (analyzeAudio_fallback unconfigured_env (Some [])))
       = Some simulateHuggingFaceResults
   \<and> field ''error'' simulateHuggingFaceResults = None"
proof -
  note f = unconfigured_env_facts
  have n: "''one two three four five six'' \<noteq> []" by simp
  have 1: "field ''emotions'' (body (snd (analyzeAudio_perplexity unconfigured_env 0 (Some []))))
             = Some (error_slot (Exn ''Hugging Face not configured'' None))"
    using perplexity_absorbs(3) [OF f(1) f(4) f(5), of 0] f(2) by simp
  have 2: "field ''detailedAnalysis'' (body (snd (analyzeAudio_perplexity unconfigured_env 0 (Some []))))
       = Some JNull"
    using perplexity_absorbs(4) [OF f(1) f(4) f(5), of 0] 1 f(3) by simp
  have 3: "response_field ''emotions'' (snd (analyzeAudio_fallback unconfigured_env (Some [])))
       = Some simulateHuggingFaceResults"
    using fallback_absorbs(2) [OF f(1) f(4) f(5) n] f(2) by simp
  have 4: "field ''error'' simulateHuggingFaceResults = None"
    by (simp add: simulateHuggingFaceResults_def)
  show ?thesis using f(2,3) 2 3 4 by simp
qed

section \<open>The shape of a response on the stub services\<close>

lemma stub_env_facts:
  "configured (ASSEMBLYAI_API_KEY (stub_env 1))"
  "snd (processWithAssemblyAI (stub_env 1) []) = Inr completed_result"
  "result_text completed_result = Some ''one two three four five six''"
  "status completed_result = Some ''completed''"
  by (simp_all add: stub_env_def configured_def completed_result_def
      processWithAssemblyAI_def poll_loop.simps maxAttempts_def after_loop_def
      pending_result_def)

theorem analysis_response_invariant_witness:
  "carries_text (snd (processWithAssemblyAI (stub_env 1) []))
   \<and> snd (processWithAssemblyAI (stub_env 1) []) = Inr completed_result
   \<and> status completed_result = Some ''completed''
   \<and> http_status (snd (analyzeAudio_perplexity (stub_env 1) 3 (Some []))) = 200
   \<and> field ''success'' (body (snd (analyzeAudio_perplexity (stub_env 1) 3 (Some [])))) = Some (JBool True)
   \<and> field ''transcript'' (body (snd (analyzeAudio_perplexity (stub_env 1) 3 (Some []))))
       = Some (JStr ''one two three four five six'')
   \<and> field ''transcript'' (body (snd (analyzeAudio_watson (stub_env 1) (Some []))))
       = Some (JStr ''one two three four five six'')
   \<and> (\<exists>x. snd (processWithAssemblyAI net_down_env []) = Inl x)
   \<and> response_field ''success'' (snd (analyzeAudio_fallback net_down_env (Some []))) = Some (JBool True)
   \<and> response_field ''transcript'' (snd (analyzeAudio_fallback net_down_env (Some [])))
       = Some (JStr simulated_text)"
proof -
  note f = stub_env_facts
  have c: "carries_text (snd (processWithAssemblyAI (stub_env 1) []))"
    unfolding carries_text_def f(2) by (simp add: f(3))
  have sp: "field ''success'' (body (snd (analyzeAudio_perplexity (stub_env 1) 3 (Some [])))) = Some (JBool True)"
    by (rule perplexity_absorbs(2) [OF f(1,2,3)])
  have sw: "field ''success'' (body (snd (analyzeAudio_watson (stub_env 1) (Some [])))) = Some (JBool True)"
    by (rule watson_absorbs(2) [OF f(1,2,3)])
  have np: "\<not> error_shape (snd (analyzeAudio_perplexity (stub_env 1) 3 (Some [])))"
    using sp by (simp add: error_shape_def)
  have nw: "\<not> error_shape (snd (analyzeAudio_watson (stub_env 1) (Some [])))"
    using sw by (simp add: error_shape_def)
  have fl: "Some [] = None \<or> Some [] = Some ([] :: buffer)" by simp
  from analysis_response_invariant [of "stub_env 1" "[]" "Some []" 3] c fl np nw f(2,3)
  have ok: "http_status (snd (analyzeAudio_perplexity (stub_env 1) 3 (Some []))) = 200"
    "field ''transcript'' (body (snd (analyzeAudio_perplexity (stub_env 1) 3 (Some []))))
       = Some (JStr ''one two three four five six'')"
    "field ''transcript'' (body (snd (analyzeAudio_watson (stub_env 1) (Some []))))
       = Some (JStr ''one two three four five six'')"
    by auto
  have up: "upload_srv net_down_env [] = Inl network_error"
    by (simp add: net_down_env_def)
  have a: "\<exists>x. snd (processWithAssemblyAI net_down_env []) = Inl x"
    by (simp add: upload_fails [OF up])
  from analysis_response_invariant [of net_down_env "[]" "Some []" 0] a
  have fb: "response_field ''success'' (snd (analyzeAudio_fallback net_down_env (Some []))) = Some (JBool True)"
    "response_field ''transcript'' (snd (analyzeAudio_fallback net_down_env (Some [])))
       = Some (JStr simulated_text)"
    by blast+
  show ?thesis using c f(2,4) sp ok a fb by simp
qed

end
